theory Spec2Isabelle
  imports Main "HOL-Library.Product_Lexorder"
begin

section \<open>Data model of the coordinator (be/src/service/impala-server.cc)\<close>

text \<open>
  A \<open>TUniqueId\<close> is the pair \<open>(hi, lo)\<close> of two 64-bit integers; ids are only compared,
  never computed with, so the components are modelled as \<open>int\<close>. The pair is ordered
  lexicographically, which is the order \<open>std::map<TUniqueId, _>\<close> iterates in.
\<close>

type_synonym TUniqueId = "int \<times> int"

record TNetworkAddress =
  hostname :: string
  port :: int

text \<open>
  \<open>Status\<close> (be/src/common/status.cc): \<open>error_detail_ == NULL\<close> is \<open>OK\<close>, otherwise the
  status holds a vector of error messages. \<open>Status(const string&)\<close> builds a one-message
  error.
\<close>

datatype Status = OK | Error "string list"

fun ok :: "Status \<Rightarrow> bool" where
  "ok OK = True"
| "ok (Error msgs) = False"

definition Status_msg :: "string \<Rightarrow> Status" where
  "Status_msg error_msg = Error [error_msg]"

text \<open>\<open>boost::algorithm::join\<close> of a vector of strings with a separator.\<close>

fun join :: "string list \<Rightarrow> string \<Rightarrow> string" where
  "join [] sep = []"
| "join [x] sep = x"
| "join (x # y # ys) sep = x @ sep @ join (y # ys) sep"

fun GetErrorMsg :: "Status \<Rightarrow> string" where
  "GetErrorMsg OK = []"
| "GetErrorMsg (Error msgs) = join msgs [CHR 0x0A]"

datatype TStatusCode = TStatusCode_OK | INTERNAL_ERROR

record TStatus =
  status_code :: TStatusCode
  error_msgs :: "string list"

text \<open>\<open>Status::ToThrift\<close>: every error is reported with code \<open>INTERNAL_ERROR\<close>.\<close>

fun ToThrift :: "Status \<Rightarrow> TStatus" where
  "ToThrift OK = \<lparr>status_code = TStatusCode_OK, error_msgs = []\<rparr>"
| "ToThrift (Error msgs) = \<lparr>status_code = INTERNAL_ERROR, error_msgs = msgs\<rparr>"

text \<open>
  \<open>SessionState\<close>: the fields the lifecycle code reads and writes. Session objects live
  behind \<open>shared_ptr\<close>s; the model keeps them in a store indexed by a reference, so that
  a query keeps reaching its session after the session has left \<open>session_state_map_\<close>.
\<close>

record SessionState =
  closed :: bool
  expired :: bool
  ref_count :: nat
  last_accessed_ms :: int
  inflight_queries :: "TUniqueId set"

type_synonym session_ref = nat

text \<open>
  \<open>Coordinator\<close> and \<open>QueryExecState\<close>: \<open>coord = None\<close> is the source's
  \<open>coord() == NULL\<close>; \<open>unique_hosts\<close> is \<open>schedule()->unique_hosts()\<close>.
\<close>

record Coordinator =
  unique_hosts :: "TNetworkAddress list"
  exec_summary :: string

record QueryExecState =
  query_id :: TUniqueId
  session :: session_ref
  sql_stmt :: string
  query_timeout_s :: int
  last_active :: int
  is_active :: bool
  coord :: "Coordinator option"
  query_status :: Status
  done_calls :: nat
  info_strings :: "(string \<times> string) list"
  encoded_profile :: string

record QueryStateRecord =
  record_id :: TUniqueId
  stmt :: string
  has_coord :: bool
  record_query_status :: Status
  encoded_profile_str :: string
  record_exec_summary :: "string option"

text \<open>
  Command-line flags read by the modelled functions (all \<open>int32\<close> or \<open>bool\<close>);
  \<open>audit_event_logging_enabled\<close> is \<open>IsAuditEventLoggingEnabled()\<close>, that is
  \<open>!FLAGS_audit_event_log_dir.empty()\<close>.
\<close>

record Flags =
  idle_query_timeout :: int
  idle_session_timeout :: int
  query_log_size :: int
  log_query_to_file :: bool
  audit_event_logging_enabled :: bool
  abort_on_failed_audit_event :: bool

record ImpalaServer =
  sessions :: "session_ref \<Rightarrow> SessionState"
  session_state_map :: "TUniqueId \<rightharpoonup> session_ref"
  query_exec_state_map :: "TUniqueId \<rightharpoonup> QueryExecState"
  queries_by_timestamp :: "(int \<times> TUniqueId) list"
  query_locations :: "(TNetworkAddress \<times> TUniqueId list) list"
  query_log :: "QueryStateRecord list"
  query_log_index :: "TUniqueId \<rightharpoonup> QueryStateRecord"
  profile_log :: "(int \<times> TUniqueId \<times> string) list"
  audit_log :: "TUniqueId list"
  is_offline :: bool
  known_backends :: "(string \<times> TNetworkAddress) list"

section \<open>Query registration\<close>

text \<open>
  \<open>queries_by_timestamp_\<close> is a \<open>std::multimap\<close> from expiry time to query id, modelled
  as a list kept in key order; an inserted pair goes after the entries with an equal key.
\<close>

fun multimap_insert :: "int \<times> TUniqueId \<Rightarrow> (int \<times> TUniqueId) list \<Rightarrow> (int \<times> TUniqueId) list" where
  "multimap_insert e [] = [e]"
| "multimap_insert e (x # xs) =
     (if fst x \<le> fst e then x # multimap_insert e xs else e # x # xs)"

text \<open>
  \<open>ImpalaServer::RegisterQuery\<close>. \<open>PrintId\<close> (util/debug-util) is not part of the modelled
  files and is taken as a parameter; \<open>now\<close> is the value of \<open>ms_since_epoch()\<close>.
\<close>

definition RegisterQuery ::
  "Flags \<Rightarrow> (TUniqueId \<Rightarrow> string) \<Rightarrow> int \<Rightarrow> session_ref \<Rightarrow> QueryExecState \<Rightarrow> ImpalaServer
     \<Rightarrow> Status \<times> ImpalaServer" where
  "RegisterQuery flags PrintId now session_state exec_state s =
     (if closed (sessions s session_state)
      then (Status_msg ''Session has been closed, ignoring query.'', s)
      else if query_exec_state_map s (query_id exec_state) \<noteq> None
      then (Status_msg (''query id '' @ PrintId (query_id exec_state) @ '' already exists''), s)
      else
        let s1 = s\<lparr>sessions := (sessions s)(session_state :=
                      (sessions s session_state)\<lparr>inflight_queries :=
                         insert (query_id exec_state)
                           (inflight_queries (sessions s session_state))\<rparr>),
                    query_exec_state_map :=
                      (query_exec_state_map s)(query_id exec_state \<mapsto> exec_state)\<rparr>;
            timeout_s = query_timeout_s exec_state;
            timeout_s = (if idle_query_timeout flags > 0 \<and> timeout_s > 0
                         then min (idle_query_timeout flags) timeout_s
                         else max (idle_query_timeout flags) timeout_s)
        in if timeout_s > 0
           then (OK, s1\<lparr>queries_by_timestamp :=
                          multimap_insert (now + 1000 * timeout_s, query_id exec_state)
                            (queries_by_timestamp s1)\<rparr>)
           else (OK, s1))"

section \<open>Query archive\<close>

text \<open>
  The \<open>QueryStateRecord\<close> constructor, restricted to the fields of the model; the
  \<open>exec_summary\<close> is filled in by \<open>ArchiveQuery\<close> when the query has a coordinator.
\<close>

definition QueryStateRecord_of :: "QueryExecState \<Rightarrow> string \<Rightarrow> QueryStateRecord" where
  "QueryStateRecord_of exec_state encoded =
     \<lparr>record_id = query_id exec_state,
      stmt = sql_stmt exec_state,
      has_coord = (coord exec_state \<noteq> None),
      record_query_status = query_status exec_state,
      encoded_profile_str = (if encoded = [] then encoded_profile exec_state else encoded),
      record_exec_summary = None\<rparr>"

text \<open>
  \<open>ImpalaServer::ArchiveQuery\<close>. \<open>now\<close> is \<open>time_since_epoch().total_milliseconds()\<close>; the
  outcome of the external profile-log writer only produces a warning and is not modelled.
\<close>

definition ArchiveQuery :: "Flags \<Rightarrow> int \<Rightarrow> QueryExecState \<Rightarrow> ImpalaServer \<Rightarrow> ImpalaServer" where
  "ArchiveQuery flags now query s =
     (let encoded_profile_str = encoded_profile query;
          s1 = (if log_query_to_file flags
                then s\<lparr>profile_log := profile_log s @ [(now, query_id query, encoded_profile_str)]\<rparr>
                else s)
      in if query_log_size flags = 0 then s1
         else
           let record0 = QueryStateRecord_of query encoded_profile_str;
               record = (case coord query of
                           None \<Rightarrow> record0
                         | Some c \<Rightarrow> record0\<lparr>record_exec_summary := Some (exec_summary c)\<rparr>);
               s2 = s1\<lparr>query_log := record # query_log s1,
                       query_log_index := (query_log_index s1)(query_id query \<mapsto> record)\<rparr>
           in if query_log_size flags > -1 \<and> query_log_size flags < int (length (query_log s2))
              then s2\<lparr>query_log_index := (query_log_index s2)(record_id (last (query_log s2)) := None),
                      query_log := butlast (query_log s2)\<rparr>
              else s2)"

section \<open>Query expiration sweep\<close>

text \<open>Work item of the cancellation thread pool (class \<open>CancellationWork\<close>).\<close>

record CancellationWork =
  work_query_id :: TUniqueId
  cause :: Status
  unregister :: bool




section \<open>Cancellation, unregistration and execution of a query\<close>

text \<open>
  Modelled from the spec: \<open>QueryExecState::Cancel\<close> (service/query-exec-state.cc is not among
  the files). "Sets the query's status to the cause (first writer wins)": a cause is latched
  only while the status is still \<open>OK\<close>.
\<close>

definition Cancel :: "Status option \<Rightarrow> QueryExecState \<Rightarrow> QueryExecState" where
  "Cancel cause_opt exec_state =
     (case cause_opt of
        None \<Rightarrow> exec_state
      | Some c \<Rightarrow> if ok (query_status exec_state) \<and> \<not> ok c
                  then exec_state\<lparr>query_status := c\<rparr> else exec_state)"

text \<open>
  Modelled from the spec: \<open>QueryExecState::UpdateQueryStatus\<close>. "A query's first non-OK
  status is latched under its own lock"; the call returns the status it was given.
\<close>

definition UpdateQueryStatus :: "Status \<Rightarrow> QueryExecState \<Rightarrow> Status \<times> QueryExecState" where
  "UpdateQueryStatus status exec_state =
     (status, if ok (query_status exec_state) \<and> \<not> ok status
              then exec_state\<lparr>query_status := status\<rparr> else exec_state)"

text \<open>
  Modelled from the spec: \<open>QueryExecState::Done\<close>, called once on the terminal transition;
  the model counts the calls.
\<close>

definition Done :: "QueryExecState \<Rightarrow> QueryExecState" where
  "Done exec_state = exec_state\<lparr>done_calls := Suc (done_calls exec_state)\<rparr>"

text \<open>
  \<open>ImpalaServer::GetQueryExecState\<close> (the \<open>lock\<close> argument only takes the query's mutex) and
  \<open>ImpalaServer::CancelInternal\<close>. Queries live in the map by value: updating a query that is
  registered updates its map entry.
\<close>

definition GetQueryExecState :: "TUniqueId \<Rightarrow> ImpalaServer \<Rightarrow> QueryExecState option" where
  "GetQueryExecState qid s = query_exec_state_map s qid"

definition CancelInternal :: "TUniqueId \<Rightarrow> Status option \<Rightarrow> ImpalaServer \<Rightarrow> Status \<times> ImpalaServer" where
  "CancelInternal qid cause_opt s =
     (case GetQueryExecState qid s of
        None \<Rightarrow> (Status_msg ''Invalid or unknown query handle'', s)
      | Some exec_state \<Rightarrow>
          (OK, s\<lparr>query_exec_state_map :=
                    (query_exec_state_map s)(qid \<mapsto> Cancel cause_opt exec_state)\<rparr>))"

text \<open>
  \<open>ImpalaServer::LogAuditRecord\<close>: \<open>append_status\<close> is what the external
  \<open>audit_event_logger_->AppendEntry\<close> returns. A failed write with
  \<open>abort_on_failed_audit_event\<close> ends the process (\<open>exit(1)\<close>): the result is \<open>None\<close>.
\<close>

definition LogAuditRecord ::
  "Flags \<Rightarrow> Status \<Rightarrow> QueryExecState \<Rightarrow> ImpalaServer \<Rightarrow> (Status \<times> ImpalaServer) option" where
  "LogAuditRecord flags append_status exec_state s =
     (if ok append_status
      then Some (append_status, s\<lparr>audit_log := audit_log s @ [query_id exec_state]\<rparr>)
      else if abort_on_failed_audit_event flags then None
      else Some (append_status, s))"

text \<open>
  The loop of \<open>UnregisterQuery\<close> over \<open>unique_hosts\<close>: a host found in \<open>query_locations_\<close>
  loses the query id from its set; a host that is not there is skipped.
\<close>

fun erase_query_location ::
  "TUniqueId \<Rightarrow> TNetworkAddress \<Rightarrow> (TNetworkAddress \<times> TUniqueId list) list
     \<Rightarrow> (TNetworkAddress \<times> TUniqueId list) list" where
  "erase_query_location qid hostport [] = []"
| "erase_query_location qid hostport ((a, qs) # locs) =
     (if a = hostport then (a, removeAll qid qs) # locs
      else (a, qs) # erase_query_location qid hostport locs)"

text \<open>
  \<open>ImpalaServer::UnregisterQuery\<close>. \<open>IsAuthorizationError\<close> (\<open>Frontend::IsAuthorizationError\<close>)
  and \<open>PrintExecSummary\<close> (util/summary-util) are parameters; \<open>append_status\<close> is the audit
  writer's answer if it is asked; \<open>None\<close> is the process exit inside \<open>LogAuditRecord\<close>.
\<close>

definition UnregisterQuery ::
  "Flags \<Rightarrow> (Status \<Rightarrow> bool) \<Rightarrow> (string \<Rightarrow> string) \<Rightarrow> int \<Rightarrow> Status \<Rightarrow> TUniqueId
     \<Rightarrow> Status option \<Rightarrow> ImpalaServer \<Rightarrow> (bool \<times> ImpalaServer) option" where
  "UnregisterQuery flags IsAuthorizationError PrintExecSummary now append_status qid cause_opt s =
     (let s1 = snd (CancelInternal qid cause_opt s) in
      case query_exec_state_map s1 qid of
        None \<Rightarrow> Some (False, s1)
      | Some exec_state \<Rightarrow>
          let s2 = s1\<lparr>query_exec_state_map := (query_exec_state_map s1)(qid := None)\<rparr>;
              audited = (if audit_event_logging_enabled flags \<and>
                            IsAuthorizationError (query_status exec_state)
                         then map_option snd (LogAuditRecord flags append_status exec_state s2)
                         else Some s2)
          in case audited of
               None \<Rightarrow> None
             | Some s3 \<Rightarrow>
                 let exec_state = Done exec_state;
                     s4 = s3\<lparr>sessions := (sessions s3)(session exec_state :=
                             (sessions s3 (session exec_state))\<lparr>inflight_queries :=
                                inflight_queries (sessions s3 (session exec_state)) - {qid}\<rparr>)\<rparr>
                 in case coord exec_state of
                      None \<Rightarrow> Some (True, ArchiveQuery flags now exec_state s4)
                    | Some c \<Rightarrow>
                        let exec_state = exec_state\<lparr>info_strings := info_strings exec_state @
                              [(''ExecSummary'', PrintExecSummary (exec_summary c))]\<rparr>;
                            s5 = s4\<lparr>query_locations :=
                                   fold (erase_query_location (query_id exec_state))
                                     (unique_hosts c) (query_locations s4)\<rparr>
                        in Some (True, ArchiveQuery flags now exec_state s5))"

text \<open>
  What \<open>Execute\<close> gets from outside: the random query id chosen by
  \<open>PrepareQueryContext\<close>, the statement and its \<open>query_timeout_s\<close> option, the planner's
  status (\<open>Frontend::GetExecRequest\<close>), the audit writer's status (once for
  \<open>ExecuteInternal\<close>, once for \<open>UnregisterQuery\<close>), and the result of
  \<open>QueryExecState::Exec\<close> with the coordinator it may have created.
\<close>

record ExecuteEnv =
  new_query_id :: TUniqueId
  query_ctx_sql :: string
  query_ctx_timeout_s :: int
  plan_status :: Status
  audit_append_status :: Status
  unregister_audit_append_status :: Status
  exec_status :: Status
  exec_coord :: "Coordinator option"

text \<open>
  A query object is shared between the caller and the registry: a change to a registered
  query is a change of its map entry.
\<close>

definition set_query :: "QueryExecState \<Rightarrow> ImpalaServer \<Rightarrow> ImpalaServer" where
  "set_query exec_state s =
     (if query_exec_state_map s (query_id exec_state) = None then s
      else s\<lparr>query_exec_state_map :=
               (query_exec_state_map s)(query_id exec_state \<mapsto> exec_state)\<rparr>)"

text \<open>\<open>query_locations_[port].insert(query_id)\<close>: a missing host gets a new entry.\<close>

fun insert_query_location ::
  "TUniqueId \<Rightarrow> TNetworkAddress \<Rightarrow> (TNetworkAddress \<times> TUniqueId list) list
     \<Rightarrow> (TNetworkAddress \<times> TUniqueId list) list" where
  "insert_query_location qid hostport [] = [(hostport, [qid])]"
| "insert_query_location qid hostport ((a, qs) # locs) =
     (if a = hostport then (a, if qid \<in> set qs then qs else qs @ [qid]) # locs
      else (a, qs) # insert_query_location qid hostport locs)"

text \<open>
  \<open>ImpalaServer::ExecuteInternal\<close>: returns the status, \<open>registered_exec_state\<close> and the
  new state; \<open>None\<close> is the process exit inside \<open>LogAuditRecord\<close>. The status that
  \<open>LogAuditRecord\<close> returns is dropped, as in the source. Modelled from the spec:
  \<open>QueryExecState::Exec\<close> (not among the files) "fires off distributed execution"; its
  status and coordinator come from \<open>env\<close>, and a failure is latched as the query's status.
\<close>

definition ExecuteInternal ::
  "Flags \<Rightarrow> (TUniqueId \<Rightarrow> string) \<Rightarrow> int \<Rightarrow> ExecuteEnv \<Rightarrow> session_ref \<Rightarrow> ImpalaServer
     \<Rightarrow> (Status \<times> bool \<times> ImpalaServer) option" where
  "ExecuteInternal flags PrintId now env session_state s =
     (if is_offline s
      then Some (Status_msg ''This Impala server is offline. Please retry your query later.'',
                 False, s)
      else
        let exec_state = \<lparr>query_id = new_query_id env, session = session_state,
                           sql_stmt = query_ctx_sql env,
                           query_timeout_s = query_ctx_timeout_s env,
                           last_active = now, is_active = False, coord = None,
                           query_status = OK,
                           done_calls = 0, info_strings = [], encoded_profile = []\<rparr>
        in case RegisterQuery flags PrintId now session_state exec_state s of
             (Error msgs, s1) \<Rightarrow> Some (Error msgs, False, s1)
           | (OK, s1) \<Rightarrow>
               (case UpdateQueryStatus (plan_status env) exec_state of
                  (Error msgs, exec_state) \<Rightarrow> Some (Error msgs, True, set_query exec_state s1)
                | (OK, exec_state) \<Rightarrow>
                    (case (if audit_event_logging_enabled flags
                           then map_option snd
                                  (LogAuditRecord flags (audit_append_status env) exec_state s1)
                           else Some s1) of
                       None \<Rightarrow> None
                     | Some s2 \<Rightarrow>
                         (case UpdateQueryStatus (exec_status env)
                                 (exec_state\<lparr>coord := exec_coord env\<rparr>) of
                            (Error msgs, exec_state) \<Rightarrow>
                              Some (Error msgs, True, set_query exec_state s2)
                          | (OK, exec_state) \<Rightarrow>
                              let s3 = set_query exec_state s2 in
                              (case coord exec_state of
                                 None \<Rightarrow> Some (OK, True, s3)
                               | Some c \<Rightarrow>
                                   Some (OK, True,
                                     s3\<lparr>query_locations :=
                                          fold (insert_query_location (query_id exec_state))
                                            (unique_hosts c) (query_locations s3)\<rparr>))))))"

text \<open>
  \<open>ImpalaServer::Execute\<close>: a failure after registration unregisters the query, with the
  failure as the cause.
\<close>

definition Execute ::
  "Flags \<Rightarrow> (TUniqueId \<Rightarrow> string) \<Rightarrow> (Status \<Rightarrow> bool) \<Rightarrow> (string \<Rightarrow> string) \<Rightarrow> int
     \<Rightarrow> ExecuteEnv \<Rightarrow> session_ref \<Rightarrow> ImpalaServer \<Rightarrow> (Status \<times> ImpalaServer) option" where
  "Execute flags PrintId IsAuthorizationError PrintExecSummary now env session_state s =
     (case ExecuteInternal flags PrintId now env session_state s of
        None \<Rightarrow> None
      | Some (status, registered_exec_state, s1) \<Rightarrow>
          if \<not> ok status \<and> registered_exec_state
          then map_option (\<lambda>r. (status, snd r))
                 (UnregisterQuery flags IsAuthorizationError PrintExecSummary now
                    (unregister_audit_append_status env) (new_query_id env) (Some status) s1)
          else Some (status, s1))"

section \<open>Session lookup\<close>

text \<open>
  Decimal output of an integer, as \<open>operator<<\<close> of a stream prints it, and the division
  of C++ on signed integers, which truncates towards zero.
\<close>

definition digit_char :: "nat \<Rightarrow> char" where
  "digit_char d = char_of (48 + d)"

fun print_nat :: "nat \<Rightarrow> string" where
  "print_nat n = (if n < 10 then [digit_char n] else print_nat (n div 10) @ [digit_char (n mod 10)])"

declare print_nat.simps [simp del]

definition print_int :: "int \<Rightarrow> string" where
  "print_int i = (if i < 0 then CHR ''-'' # print_nat (nat (- i)) else print_nat (nat i))"

definition cpp_div :: "int \<Rightarrow> int \<Rightarrow> int" where
  "cpp_div a b = (if (a < 0) = (b < 0) then \<bar>a\<bar> div \<bar>b\<bar> else - (\<bar>a\<bar> div \<bar>b\<bar>))"

text \<open>
  \<open>ImpalaServer::GetSessionState\<close>. The out-parameter \<open>session_state\<close> is passed in and
  returned (\<open>None\<close> is the null pointer): the error returns under \<open>mark_active\<close> leave it
  as the caller had it. \<open>DebugString\<close> is \<open>TimestampValue(_).DebugString()\<close>, a parameter.
\<close>

definition GetSessionState ::
  "Flags \<Rightarrow> (int \<Rightarrow> string) \<Rightarrow> TUniqueId \<Rightarrow> session_ref option \<Rightarrow> bool \<Rightarrow> ImpalaServer
     \<Rightarrow> Status \<times> session_ref option \<times> ImpalaServer" where
  "GetSessionState flags DebugString session_id session_state mark_active s =
     (case session_state_map s session_id of
        None \<Rightarrow> (Status_msg ''Invalid session id'', None, s)
      | Some i \<Rightarrow>
          if mark_active then
            (if expired (sessions s i) then
               (Status_msg (''Client session expired due to more than '' @
                  print_int (idle_session_timeout flags) @
                  ''s of inactivity (last activity was at: '' @
                  DebugString (cpp_div (last_accessed_ms (sessions s i)) 1000) @ '').''),
                session_state, s)
             else if closed (sessions s i) then
               (Status_msg ''Session is closed'', session_state, s)
             else
               (OK, Some i,
                s\<lparr>sessions := (sessions s)(i :=
                     (sessions s i)\<lparr>ref_count := ref_count (sessions s i) + 1\<rparr>)\<rparr>))
          else (OK, Some i, s))"

section \<open>Fragment execution service\<close>

text \<open>
  A \<open>FragmentExecState\<close> object is known by a reference, allocated in order. What happens
  to the objects is recorded in a log of events, oldest first: \<open>Prepare()\<close> was called on an
  object, it returned with a status, \<open>Cancel()\<close> was called, the exec thread was started.
\<close>

type_synonym fragment_ref = nat

datatype fragment_event =
    PrepareCalled fragment_ref
  | PrepareReturned fragment_ref Status
  | CancelCalled fragment_ref
  | ExecThreadStarted fragment_ref

record TExecPlanFragmentParams =
  fragment_instance_id :: TUniqueId
  isset_output_sink :: bool

record Backend =
  fragment_exec_state_map :: "TUniqueId \<rightharpoonup> fragment_ref"
  next_fragment_ref :: fragment_ref
  preparing :: "(fragment_ref \<times> TUniqueId) list"
  events :: "fragment_event list"

text \<open>
  \<open>ImpalaServer::StartPlanFragmentExecution\<close> in its two parts: up to the call of
  \<open>Prepare()\<close>, and from its return (with \<open>prepare_status\<close>) on. Other requests may be served
  between the two. \<open>insert\<close> on the map keeps an entry that is already there.
\<close>

definition StartPlanFragmentExecution_call ::
  "TExecPlanFragmentParams \<Rightarrow> Backend \<Rightarrow> (Status + fragment_ref) \<times> Backend" where
  "StartPlanFragmentExecution_call exec_params b =
     (if \<not> isset_output_sink exec_params
      then (Inl (Status_msg ''missing sink in plan fragment''), b)
      else (Inr (next_fragment_ref b),
            b\<lparr>next_fragment_ref := Suc (next_fragment_ref b),
              preparing := preparing b @ [(next_fragment_ref b, fragment_instance_id exec_params)],
              events := events b @ [PrepareCalled (next_fragment_ref b)]\<rparr>))"

definition StartPlanFragmentExecution_return ::
  "fragment_ref \<Rightarrow> TUniqueId \<Rightarrow> Status \<Rightarrow> Backend \<Rightarrow> Status \<times> Backend" where
  "StartPlanFragmentExecution_return exec_state instance_id prepare_status b =
     (let b1 = b\<lparr>preparing := removeAll (exec_state, instance_id) (preparing b),
                 events := events b @ [PrepareReturned exec_state prepare_status]\<rparr>
      in if \<not> ok prepare_status then (prepare_status, b1)
         else (OK,
               b1\<lparr>fragment_exec_state_map :=
                    (if fragment_exec_state_map b1 instance_id = None
                     then (fragment_exec_state_map b1)(instance_id \<mapsto> exec_state)
                     else fragment_exec_state_map b1),
                  events := events b1 @ [ExecThreadStarted exec_state]\<rparr>))"

definition StartPlanFragmentExecution ::
  "TExecPlanFragmentParams \<Rightarrow> Status \<Rightarrow> Backend \<Rightarrow> Status \<times> Backend" where
  "StartPlanFragmentExecution exec_params prepare_status b =
     (case StartPlanFragmentExecution_call exec_params b of
        (Inl status, b1) \<Rightarrow> (status, b1)
      | (Inr exec_state, b1) \<Rightarrow>
          StartPlanFragmentExecution_return exec_state (fragment_instance_id exec_params)
            prepare_status b1)"

text \<open>
  \<open>ImpalaServer::CancelPlanFragment\<close>: \<open>cancel_status\<close> is what \<open>exec_state->Cancel()\<close>
  returns; \<open>print_id\<close> is \<open>operator<<\<close> on a \<open>TUniqueId\<close>. The result is the \<open>TStatus\<close>
  written to \<open>return_val\<close>.
\<close>

definition CancelPlanFragment ::
  "(TUniqueId \<Rightarrow> string) \<Rightarrow> TUniqueId \<Rightarrow> Status \<Rightarrow> Backend \<Rightarrow> TStatus \<times> Backend" where
  "CancelPlanFragment print_id instance_id cancel_status b =
     (case fragment_exec_state_map b instance_id of
        None \<Rightarrow> (ToThrift (Error [''unknown fragment id: '' @ print_id instance_id]), b)
      | Some exec_state \<Rightarrow>
          (ToThrift cancel_status, b\<lparr>events := events b @ [CancelCalled exec_state]\<rparr>))"

text \<open>
  The end of \<open>ImpalaServer::RunExecPlanFragment\<close>, after \<open>Exec()\<close>: the entry of the
  fragment's id is erased if there is one.
\<close>

definition RunExecPlanFragment_done :: "TUniqueId \<Rightarrow> Backend \<Rightarrow> Backend" where
  "RunExecPlanFragment_done instance_id b =
     b\<lparr>fragment_exec_state_map := (fragment_exec_state_map b)(instance_id := None)\<rparr>"

text \<open>
  The requests a backend serves, in the order in which their atomic parts take effect. A
  \<open>PrepareReturns\<close> for an object that is not preparing does nothing.
\<close>

datatype backend_step =
    ExecPlanFragmentCalled TExecPlanFragmentParams
  | PrepareReturns fragment_ref TUniqueId Status
  | CancelPlanFragmentCalled TUniqueId Status
  | ExecThreadDone TUniqueId

fun serve :: "(TUniqueId \<Rightarrow> string) \<Rightarrow> backend_step \<Rightarrow> Backend \<Rightarrow> Backend" where
  "serve print_id (ExecPlanFragmentCalled exec_params) b =
     snd (StartPlanFragmentExecution_call exec_params b)"
| "serve print_id (PrepareReturns exec_state instance_id prepare_status) b =
     (if (exec_state, instance_id) \<in> set (preparing b)
      then snd (StartPlanFragmentExecution_return exec_state instance_id prepare_status b)
      else b)"
| "serve print_id (CancelPlanFragmentCalled instance_id cancel_status) b =
     snd (CancelPlanFragment print_id instance_id cancel_status b)"
| "serve print_id (ExecThreadDone instance_id) b =
     RunExecPlanFragment_done instance_id b"

definition backend_run :: "(TUniqueId \<Rightarrow> string) \<Rightarrow> backend_step list \<Rightarrow> Backend \<Rightarrow> Backend" where
  "backend_run print_id steps b = fold (serve print_id) steps b"

definition initial_backend :: Backend where
  "initial_backend =
     \<lparr>fragment_exec_state_map = Map.empty, next_fragment_ref = 0, preparing = [], events = []\<rparr>"

text \<open>
  The order the claim is about, on an event log: every \<open>Cancel()\<close> on an object comes after
  the return of \<open>Prepare()\<close> on that object. \<open>returned\<close> holds the objects whose \<open>Prepare()\<close>
  has returned so far.
\<close>

fun cancel_after_prepare :: "fragment_ref list \<Rightarrow> fragment_event list \<Rightarrow> bool" where
  "cancel_after_prepare returned [] = True"
| "cancel_after_prepare returned (PrepareReturned r st # evs) =
     cancel_after_prepare (r # returned) evs"
| "cancel_after_prepare returned (CancelCalled r # evs) =
     (r \<in> set returned \<and> cancel_after_prepare returned evs)"
| "cancel_after_prepare returned (PrepareCalled r # evs) = cancel_after_prepare returned evs"
| "cancel_after_prepare returned (ExecThreadStarted r # evs) = cancel_after_prepare returned evs"

text \<open>
  The invariant of the fragment service: in the log no \<open>Cancel\<close> of an object comes before
  the return of its \<open>Prepare\<close>, and every object in \<open>fragment_exec_state_map_\<close> has
  returned from \<open>Prepare\<close> with \<open>OK\<close>.
\<close>

definition backend_inv :: "Backend \<Rightarrow> bool" where
  "backend_inv b \<longleftrightarrow>
     cancel_after_prepare [] (events b) \<and>
     (\<forall>instance_id r. fragment_exec_state_map b instance_id = Some r \<longrightarrow>
        PrepareReturned r OK \<in> set (events b))"

section \<open>Catalog update barrier\<close>







section \<open>Membership reconciler\<close>

record TTopicItem =
  item_key :: string
  item_value :: string

record TTopicDelta =
  is_delta :: bool
  topic_entries :: "TTopicItem list"
  topic_deletions :: "string list"

definition MAX_CANCELLATION_QUEUE_SIZE :: nat where
  "MAX_CANCELLATION_QUEUE_SIZE = 65536"

text \<open>
  \<open>known_backends_\<close> maps a backend id to its address; \<open>insert\<close> keeps an entry that is
  already there, \<open>erase\<close> removes the entry of a key.
\<close>

definition backend_insert ::
  "string \<Rightarrow> TNetworkAddress \<Rightarrow> (string \<times> TNetworkAddress) list \<Rightarrow> (string \<times> TNetworkAddress) list" where
  "backend_insert k a kb = (if k \<in> fst ` set kb then kb else kb @ [(k, a)])"

definition backend_erase ::
  "string \<Rightarrow> (string \<times> TNetworkAddress) list \<Rightarrow> (string \<times> TNetworkAddress) list" where
  "backend_erase k kb = filter (\<lambda>e. fst e \<noteq> k) kb"

text \<open>
  \<open>queries_to_cancel\<close> is a \<open>std::map\<close> from query id to the vector of its failed hosts: a
  list in the order of the ids. \<open>queries_to_cancel[q].push_back(a)\<close> appends to the vector of
  \<open>q\<close>, which starts empty if \<open>q\<close> is new.
\<close>

fun add_failed_host ::
  "TUniqueId \<Rightarrow> TNetworkAddress \<Rightarrow> (TUniqueId \<times> TNetworkAddress list) list
     \<Rightarrow> (TUniqueId \<times> TNetworkAddress list) list" where
  "add_failed_host q a [] = [(q, [a])]"
| "add_failed_host q a ((k, hs) # m) =
     (if q = k then (k, hs @ [a]) # m
      else if q < k then (q, [a]) # (k, hs) # m
      else (k, hs) # add_failed_host q a m)"

text \<open>
  The loop of \<open>MembershipCallback\<close> over \<open>query_locations_\<close>: the entry of an address that
  is not in \<open>current_membership\<close> is erased, its address is added to the failed hosts of each of
  its queries, and the cached connections to it are closed. The result is the entries that
  stay, \<open>queries_to_cancel\<close> and the addresses given to \<open>CloseConnections\<close>.
\<close>

fun scan_query_locations ::
  "TNetworkAddress list \<Rightarrow> (TNetworkAddress \<times> TUniqueId list) list
     \<Rightarrow> (TUniqueId \<times> TNetworkAddress list) list
     \<Rightarrow> (TNetworkAddress \<times> TUniqueId list) list \<times> (TUniqueId \<times> TNetworkAddress list) list
        \<times> TNetworkAddress list" where
  "scan_query_locations current_membership [] queries_to_cancel = ([], queries_to_cancel, [])"
| "scan_query_locations current_membership ((addr, query_ids) # locs) queries_to_cancel =
     (if addr \<notin> set current_membership then
        (case scan_query_locations current_membership locs
                (fold (\<lambda>query_id. add_failed_host query_id addr) query_ids queries_to_cancel) of
           (locs', to_cancel, closed_connections) \<Rightarrow> (locs', to_cancel, addr # closed_connections))
      else
        (case scan_query_locations current_membership locs queries_to_cancel of
           (locs', to_cancel, closed_connections) \<Rightarrow>
             ((addr, query_ids) # locs', to_cancel, closed_connections)))"

text \<open>
  \<open>ImpalaServer::MembershipCallback\<close>. \<open>topic\<close> is the delta of the membership topic, if the
  update has one; \<open>deserialize\<close> is \<open>DeserializeThriftMsg\<close> on a backend descriptor, giving its
  address or failing; \<open>print_addr\<close> is \<open>operator<<\<close> on a \<open>TNetworkAddress\<close>; \<open>queue_size\<close> is
  \<open>cancellation_thread_pool_->GetQueueSize()\<close>. The result is the new state, the addresses
  whose connections were closed, and the work offered to the cancellation pool, in order.
\<close>

definition MembershipCallback ::
  "(TNetworkAddress \<Rightarrow> string) \<Rightarrow> (string \<Rightarrow> TNetworkAddress option) \<Rightarrow> TTopicDelta option \<Rightarrow> nat
     \<Rightarrow> ImpalaServer \<Rightarrow> ImpalaServer \<times> TNetworkAddress list \<times> CancellationWork list" where
  "MembershipCallback print_addr deserialize topic queue_size s =
     (case topic of
        None \<Rightarrow> (s, [], [])
      | Some delta \<Rightarrow>
          let kb0 = (if \<not> is_delta delta then [] else known_backends s);
              kb1 = fold (\<lambda>item kb. case deserialize (item_value item) of
                                       None \<Rightarrow> kb
                                     | Some address \<Rightarrow> backend_insert (item_key item) address kb)
                      (topic_entries delta) kb0;
              kb2 = fold backend_erase (topic_deletions delta) kb1;
              current_membership = map snd kb2
          in case scan_query_locations current_membership (query_locations s) [] of
               (locs, queries_to_cancel, closed_connections) \<Rightarrow>
                 (s\<lparr>known_backends := kb2, query_locations := locs\<rparr>,
                  closed_connections,
                  if queue_size + length queries_to_cancel > MAX_CANCELLATION_QUEUE_SIZE
                  then []
                  else map (\<lambda>cancellation_entry.
                              \<lparr>work_query_id = fst cancellation_entry,
                               cause = Status_msg
                                 (''Cancelled due to unreachable impalad(s): '' @
                                  join (map print_addr (snd cancellation_entry)) '', ''),
                               unregister = False\<rparr>)
                         queries_to_cancel))"

text \<open>
  The failed hosts of a query, for stating what \<open>MembershipCallback\<close> does: the addresses of
  the entries of \<open>query_locations_\<close> that are not in the membership and hold the query, in
  the order of the entries.
\<close>

definition failed_hosts :: "TNetworkAddress list \<Rightarrow> TUniqueId \<Rightarrow> (TNetworkAddress \<times> TUniqueId list) list \<Rightarrow> TNetworkAddress list" where
  "failed_hosts membership q locs =
     map fst (filter (\<lambda>e. fst e \<notin> set membership \<and> q \<in> set (snd e)) locs)"

text \<open>
  The vector that \<open>queries_to_cancel\<close> holds for a query (empty if it has none), and the
  shape of \<open>queries_to_cancel\<close>: ids in strictly increasing order, no empty vector.
\<close>

definition hosts_of :: "(TUniqueId \<times> TNetworkAddress list) list \<Rightarrow> TUniqueId \<Rightarrow> TNetworkAddress list" where
  "hosts_of tc q = (case map_of tc q of None \<Rightarrow> [] | Some hs \<Rightarrow> hs)"

definition to_cancel_wf :: "(TUniqueId \<times> TNetworkAddress list) list \<Rightarrow> bool" where
  "to_cancel_wf tc \<longleftrightarrow> sorted_wrt (<) (map fst tc) \<and> (\<forall>e \<in> set tc. snd e \<noteq> [])"

section \<open>Proxy-user authorization\<close>

text \<open>
  \<open>boost::split(result, input, is_any_of(seps), token_compress_on)\<close>: the input is cut at
  every run of separator characters; a run counts as one cut, and the pieces before the first
  and after the last cut are kept even when empty. \<open>in_run\<close> says that the character before
  was a separator.
\<close>

fun split_compress :: "(char \<Rightarrow> bool) \<Rightarrow> bool \<Rightarrow> string \<Rightarrow> string list" where
  "split_compress is_sep in_run [] = [[]]"
| "split_compress is_sep in_run (c # cs) =
     (if is_sep c
      then (if in_run then split_compress is_sep True cs
            else [] # split_compress is_sep True cs)
      else (case split_compress is_sep False cs of
              [] \<Rightarrow> [[c]]
            | t # ts \<Rightarrow> (c # t) # ts))"

definition boost_split :: "string \<Rightarrow> string \<Rightarrow> string list" where
  "boost_split input seps = split_compress (\<lambda>c. c \<in> set seps) False input"

text \<open>
  \<open>std::string::find\<close> of a character: the position of its first occurrence, \<open>None\<close> for
  \<open>npos\<close>. \<open>npos\<close> is the largest \<open>size_t\<close>, so the minimum of two results is \<open>npos\<close> only
  if both are.
\<close>

definition find_char :: "string \<Rightarrow> char \<Rightarrow> nat option" where
  "find_char s c = (if c \<in> set s then Some (length (takeWhile (\<lambda>x. x \<noteq> c) s)) else None)"

fun min_pos :: "nat option \<Rightarrow> nat option \<Rightarrow> nat option" where
  "min_pos None b = b"
| "min_pos a None = a"
| "min_pos (Some a) (Some b) = Some (min a b)"

text \<open>
  The proxy part of the constructor \<open>ImpalaServer::ImpalaServer\<close>: it fills
  \<open>authorized_proxy_user_config_\<close> from the flag \<open>authorized_proxy_user_config\<close>. The map is a
  list of keys with their allowed users; \<open>insert\<close> keeps a key that is already there. A piece
  without \<open>=\<close> ends the process (\<open>exit(1)\<close>): \<open>None\<close>.
\<close>

fun parse_proxy_entries ::
  "string list \<Rightarrow> (string \<times> string list) list \<Rightarrow> (string \<times> string list) list option" where
  "parse_proxy_entries [] config = Some config"
| "parse_proxy_entries (entry # entries) config =
     (case find_char entry CHR ''='' of
        None \<Rightarrow> None
      | Some pos \<Rightarrow>
          let proxy_user = take pos entry;
              config_str = drop (pos + 1) entry;
              allowed_users = boost_split config_str '',''
          in parse_proxy_entries entries
               (if proxy_user \<in> fst ` set config then config
                else config @ [(proxy_user, allowed_users)]))"

definition parse_proxy_user_config :: "string \<Rightarrow> (string \<times> string list) list option" where
  "parse_proxy_user_config flag =
     (if flag = [] then Some [] else parse_proxy_entries (boost_split flag '';'') [])"

text \<open>
  \<open>ImpalaServer::AuthorizeProxyUser\<close>. The second test of the source repeats
  \<open>user.empty()\<close> and is never reached with a true condition.
\<close>

definition AuthorizeProxyUser ::
  "(string \<times> string list) list \<Rightarrow> string \<Rightarrow> string \<Rightarrow> Status" where
  "AuthorizeProxyUser authorized_proxy_user_config user do_as_user =
     (if user = [] then Status_msg ''Unable to delegate using empty proxy username.''
      else if user = [] then Status_msg ''Unable to delegate using empty doAs username.''
      else
        let error_msg = ''User '' @ [CHR 0x27] @ user @ [CHR 0x27] @
                        '' is not authorized to delegate to '' @ [CHR 0x27] @ do_as_user @
                        [CHR 0x27] @ ''.''
        in if length authorized_proxy_user_config = 0
           then Status_msg (error_msg @ '' User delegation is disabled.'')
           else
             let end_idx = min_pos (find_char user CHR ''/'') (find_char user CHR ''@'');
                 short_user = (case end_idx of
                                 None \<Rightarrow> user
                               | Some i \<Rightarrow> if i = 0 then user else take i user)
             in case map_of authorized_proxy_user_config short_user of
                  None \<Rightarrow> Status_msg error_msg
                | Some allowed \<Rightarrow>
                    if \<exists>u \<in> set allowed. u = ''*'' \<or> u = do_as_user then OK
                    else Status_msg error_msg)"

text \<open>
  The short form of a principal in the words of the specification: the substring up to the
  first \<open>/\<close> or \<open>@\<close>, or the whole principal if neither appears.
\<close>

definition spec_short_form :: "string \<Rightarrow> string" where
  "spec_short_form user = takeWhile (\<lambda>c. c \<noteq> CHR ''/'' \<and> c \<noteq> CHR ''@'') user"

section \<open>Query options\<close>

text \<open>
  The options that \<open>SetQueryOptions\<close> and \<open>TQueryOptionsToMap\<close> switch over, in the order of
  the latter, and the two enumerations among the option values.
\<close>

datatype TImpalaQueryOptions =
    ABORT_ON_ERROR | MAX_ERRORS | DISABLE_CODEGEN | BATCH_SIZE | MEM_LIMIT | NUM_NODES
  | MAX_SCAN_RANGE_LENGTH | MAX_IO_BUFFERS | NUM_SCANNER_THREADS | ALLOW_UNSUPPORTED_FORMATS
  | DEFAULT_ORDER_BY_LIMIT | DEBUG_ACTION | ABORT_ON_DEFAULT_LIMIT_EXCEEDED | COMPRESSION_CODEC
  | HBASE_CACHING | HBASE_CACHE_BLOCKS | PARQUET_FILE_SIZE | EXPLAIN_LEVEL | SYNC_DDL
  | REQUEST_POOL | V_CPU_CORES | RESERVATION_REQUEST_TIMEOUT | DISABLE_CACHED_READS
  | DISABLE_OUTERMOST_TOPN | RM_INITIAL_MEM | QUERY_TIMEOUT_S | MAX_BLOCK_MGR_MEMORY

datatype THdfsCompression = NONE | GZIP | BZIP2 | DEFAULT | SNAPPY | SNAPPY_BLOCKED

datatype TExplainLevel = MINIMAL | STANDARD | EXTENDED | VERBOSE

text \<open>
  \<open>TQueryOptions\<close>: one field for each option. The Thrift declaration is not among the
  files; integer fields are \<open>int\<close>, and what the parsing functions can return bounds
  the values that come back.
\<close>

record TQueryOptions =
  abort_on_error :: bool
  max_errors :: int
  disable_codegen :: bool
  batch_size :: int
  mem_limit :: int
  num_nodes :: int
  max_scan_range_length :: int
  max_io_buffers :: int
  num_scanner_threads :: int
  allow_unsupported_formats :: bool
  default_order_by_limit :: int
  debug_action :: string
  abort_on_default_limit_exceeded :: bool
  compression_codec :: THdfsCompression
  hbase_caching :: int
  hbase_cache_blocks :: bool
  parquet_file_size :: int
  explain_level :: TExplainLevel
  sync_ddl :: bool
  request_pool :: string
  v_cpu_cores :: int
  reservation_request_timeout :: int
  disable_cached_reads :: bool
  disable_outermost_topn :: bool
  rm_initial_mem :: int
  opt_query_timeout_s :: int
  max_block_mgr_memory :: int

text \<open>
  Modelled from the spec: the table \<open>_TImpalaQueryOptions_VALUES_TO_NAMES\<close> that Thrift
  generates (gen-cpp is not among the files). It lists "the enumerated option set"; Thrift
  names each value by its identifier.
\<close>

definition TImpalaQueryOptions_VALUES_TO_NAMES :: "(TImpalaQueryOptions \<times> string) list" where
  "TImpalaQueryOptions_VALUES_TO_NAMES =
     [(ABORT_ON_ERROR, ''ABORT_ON_ERROR''), (MAX_ERRORS, ''MAX_ERRORS''),
      (DISABLE_CODEGEN, ''DISABLE_CODEGEN''), (BATCH_SIZE, ''BATCH_SIZE''),
      (MEM_LIMIT, ''MEM_LIMIT''), (NUM_NODES, ''NUM_NODES''),
      (MAX_SCAN_RANGE_LENGTH, ''MAX_SCAN_RANGE_LENGTH''), (MAX_IO_BUFFERS, ''MAX_IO_BUFFERS''),
      (NUM_SCANNER_THREADS, ''NUM_SCANNER_THREADS''),
      (ALLOW_UNSUPPORTED_FORMATS, ''ALLOW_UNSUPPORTED_FORMATS''),
      (DEFAULT_ORDER_BY_LIMIT, ''DEFAULT_ORDER_BY_LIMIT''), (DEBUG_ACTION, ''DEBUG_ACTION''),
      (ABORT_ON_DEFAULT_LIMIT_EXCEEDED, ''ABORT_ON_DEFAULT_LIMIT_EXCEEDED''),
      (COMPRESSION_CODEC, ''COMPRESSION_CODEC''), (HBASE_CACHING, ''HBASE_CACHING''),
      (HBASE_CACHE_BLOCKS, ''HBASE_CACHE_BLOCKS''), (PARQUET_FILE_SIZE, ''PARQUET_FILE_SIZE''),
      (EXPLAIN_LEVEL, ''EXPLAIN_LEVEL''), (SYNC_DDL, ''SYNC_DDL''),
      (REQUEST_POOL, ''REQUEST_POOL''), (V_CPU_CORES, ''V_CPU_CORES''),
      (RESERVATION_REQUEST_TIMEOUT, ''RESERVATION_REQUEST_TIMEOUT''),
      (DISABLE_CACHED_READS, ''DISABLE_CACHED_READS''),
      (DISABLE_OUTERMOST_TOPN, ''DISABLE_OUTERMOST_TOPN''),
      (RM_INITIAL_MEM, ''RM_INITIAL_MEM''), (QUERY_TIMEOUT_S, ''QUERY_TIMEOUT_S''),
      (MAX_BLOCK_MGR_MEMORY, ''MAX_BLOCK_MGR_MEMORY'')]"

text \<open>
  Library functions the option code calls: \<open>boost::iequals\<close> (equality up to the case of
  ASCII letters), \<open>boost::trim\<close> (white space, as \<open>isspace\<close> has it, off both ends), and
  \<open>atol\<close> and \<open>atoi\<close> as glibc has them: white space, a sign and digits are read, the value is
  clamped to 64 bits, and \<open>atoi\<close> keeps its low 32 bits.
\<close>

definition to_upper :: "char \<Rightarrow> char" where
  "to_upper c = (if 97 \<le> (of_char c :: nat) \<and> (of_char c :: nat) \<le> 122
                 then char_of ((of_char c :: nat) - 32) else c)"

definition iequals :: "string \<Rightarrow> string \<Rightarrow> bool" where
  "iequals a b \<longleftrightarrow> map to_upper a = map to_upper b"

definition isspace :: "char \<Rightarrow> bool" where
  "isspace c \<longleftrightarrow> (of_char c :: nat) = 32 \<or> (9 \<le> (of_char c :: nat) \<and> (of_char c :: nat) \<le> 13)"

definition trim :: "string \<Rightarrow> string" where
  "trim s = rev (dropWhile isspace (rev (dropWhile isspace s)))"

definition is_digit :: "char \<Rightarrow> bool" where
  "is_digit c \<longleftrightarrow> 48 \<le> (of_char c :: nat) \<and> (of_char c :: nat) \<le> 57"

fun parse_digits :: "int \<Rightarrow> string \<Rightarrow> int" where
  "parse_digits acc [] = acc"
| "parse_digits acc (c # cs) =
     (if is_digit c then parse_digits (acc * 10 + int ((of_char c :: nat) - 48)) cs else acc)"

definition atol :: "string \<Rightarrow> int" where
  "atol s =
     (let s1 = dropWhile isspace s;
          v = (case s1 of
                 [] \<Rightarrow> 0
               | c # cs \<Rightarrow> if c = CHR ''-'' then - parse_digits 0 cs
                           else if c = CHR ''+'' then parse_digits 0 cs
                           else parse_digits 0 s1)
      in max (- (2 ^ 63)) (min (2 ^ 63 - 1) v))"

definition atoi :: "string \<Rightarrow> int" where
  "atoi s = (atol s + 2 ^ 31) mod 2 ^ 32 - 2 ^ 31"

text \<open>\<open>ImpalaServer::GetQueryOption\<close>: \<open>None\<close> is the result \<open>-1\<close>.\<close>

fun GetQueryOption_loop :: "(TImpalaQueryOptions \<times> string) list \<Rightarrow> string \<Rightarrow> TImpalaQueryOptions option" where
  "GetQueryOption_loop [] key = None"
| "GetQueryOption_loop (itr # rest) key =
     (if iequals key (snd itr) then Some (fst itr) else GetQueryOption_loop rest key)"

definition GetQueryOption :: "string \<Rightarrow> TImpalaQueryOptions option" where
  "GetQueryOption key = GetQueryOption_loop TImpalaQueryOptions_VALUES_TO_NAMES key"

text \<open>
  \<open>ParseMemValue\<close>. \<open>ParseMemSpec\<close> (\<open>ParseUtil::ParseMemSpec\<close>, util/parse-util) is a
  parameter: it gives the number of bytes, negative on failure, and whether the value was a
  percentage.
\<close>

definition ParseMemValue :: "(string \<Rightarrow> int \<times> bool) \<Rightarrow> string \<Rightarrow> string \<Rightarrow> Status \<times> int" where
  "ParseMemValue ParseMemSpec value key =
     (case ParseMemSpec value of
        (result, is_percent) \<Rightarrow>
          if result < 0
          then (Status_msg (''Failed to parse '' @ key @ '' from '' @ [CHR 0x27] @ value @
                  [CHR 0x27] @ ''.''), result)
          else if is_percent
          then (Status_msg (''Invalid '' @ key @ '' with percent '' @ [CHR 0x27] @ value @
                  [CHR 0x27] @ ''.''), result)
          else (OK, result))"

text \<open>
  \<open>std::string::c_str\<close> read as a C string, as \<open>atoi\<close>, \<open>atol\<close> and the \<open>std::string\<close>
  constructor from \<open>const char*\<close> read it: the characters before the first NUL.
\<close>

definition c_str :: "string \<Rightarrow> string" where
  "c_str s = takeWhile (\<lambda>c. c \<noteq> CHR 0x00) s"

definition iequals_true :: "string \<Rightarrow> bool" where
  "iequals_true value \<longleftrightarrow> iequals value ''true'' \<or> iequals value ''1''"

text \<open>
  \<open>ImpalaServer::SetQueryOptions\<close>. The options are changed in place: an error returns
  them as they are.
\<close>

definition SetQueryOptions ::
  "(string \<Rightarrow> int \<times> bool) \<Rightarrow> string \<Rightarrow> string \<Rightarrow> TQueryOptions \<Rightarrow> Status \<times> TQueryOptions" where
  "SetQueryOptions ParseMemSpec key value query_options =
     (case GetQueryOption key of
        None \<Rightarrow> (Status_msg (''Ignoring invalid configuration option: '' @ key), query_options)
      | Some option \<Rightarrow>
          (case option of
             ABORT_ON_ERROR \<Rightarrow> (OK, query_options\<lparr>abort_on_error := iequals_true value\<rparr>)
           | MAX_ERRORS \<Rightarrow> (OK, query_options\<lparr>max_errors := atoi (c_str value)\<rparr>)
           | DISABLE_CODEGEN \<Rightarrow> (OK, query_options\<lparr>disable_codegen := iequals_true value\<rparr>)
           | BATCH_SIZE \<Rightarrow> (OK, query_options\<lparr>batch_size := atoi (c_str value)\<rparr>)
           | MEM_LIMIT \<Rightarrow>
               (case ParseMemValue ParseMemSpec value ''query memory limit'' of
                  (Error msgs, bytes_limit) \<Rightarrow> (Error msgs, query_options)
                | (OK, bytes_limit) \<Rightarrow> (OK, query_options\<lparr>mem_limit := bytes_limit\<rparr>))
           | NUM_NODES \<Rightarrow> (OK, query_options\<lparr>num_nodes := atoi (c_str value)\<rparr>)
           | MAX_SCAN_RANGE_LENGTH \<Rightarrow> (OK, query_options\<lparr>max_scan_range_length := atol (c_str value)\<rparr>)
           | MAX_IO_BUFFERS \<Rightarrow> (OK, query_options\<lparr>max_io_buffers := atoi (c_str value)\<rparr>)
           | NUM_SCANNER_THREADS \<Rightarrow> (OK, query_options\<lparr>num_scanner_threads := atoi (c_str value)\<rparr>)
           | ALLOW_UNSUPPORTED_FORMATS \<Rightarrow>
               (OK, query_options\<lparr>allow_unsupported_formats := iequals_true value\<rparr>)
           | DEFAULT_ORDER_BY_LIMIT \<Rightarrow>
               (OK, query_options\<lparr>default_order_by_limit := atoi (c_str value)\<rparr>)
           | DEBUG_ACTION \<Rightarrow> (OK, query_options\<lparr>debug_action := c_str value\<rparr>)
           | COMPRESSION_CODEC \<Rightarrow>
               if value = [] then (OK, query_options)
               else if iequals value ''none''
               then (OK, query_options\<lparr>compression_codec := NONE\<rparr>)
               else if iequals value ''gzip''
               then (OK, query_options\<lparr>compression_codec := GZIP\<rparr>)
               else if iequals value ''bzip2''
               then (OK, query_options\<lparr>compression_codec := BZIP2\<rparr>)
               else if iequals value ''default''
               then (OK, query_options\<lparr>compression_codec := DEFAULT\<rparr>)
               else if iequals value ''snappy''
               then (OK, query_options\<lparr>compression_codec := SNAPPY\<rparr>)
               else if iequals value ''snappy_blocked''
               then (OK, query_options\<lparr>compression_codec := SNAPPY_BLOCKED\<rparr>)
               else (Status_msg (''Invalid compression codec: '' @ value), query_options)
           | ABORT_ON_DEFAULT_LIMIT_EXCEEDED \<Rightarrow>
               (OK, query_options\<lparr>abort_on_default_limit_exceeded := iequals_true value\<rparr>)
           | HBASE_CACHING \<Rightarrow> (OK, query_options\<lparr>hbase_caching := atoi (c_str value)\<rparr>)
           | HBASE_CACHE_BLOCKS \<Rightarrow>
               (OK, query_options\<lparr>hbase_cache_blocks := iequals_true value\<rparr>)
           | PARQUET_FILE_SIZE \<Rightarrow>
               (case ParseMemValue ParseMemSpec value ''parquet file size'' of
                  (Error msgs, file_size) \<Rightarrow> (Error msgs, query_options)
                | (OK, file_size) \<Rightarrow> (OK, query_options\<lparr>parquet_file_size := file_size\<rparr>))
           | EXPLAIN_LEVEL \<Rightarrow>
               if iequals value ''minimal'' \<or> iequals value ''0''
               then (OK, query_options\<lparr>explain_level := MINIMAL\<rparr>)
               else if iequals value ''standard'' \<or> iequals value ''1''
               then (OK, query_options\<lparr>explain_level := STANDARD\<rparr>)
               else if iequals value ''extended'' \<or> iequals value ''2''
               then (OK, query_options\<lparr>explain_level := EXTENDED\<rparr>)
               else if iequals value ''verbose'' \<or> iequals value ''3''
               then (OK, query_options\<lparr>explain_level := VERBOSE\<rparr>)
               else (Status_msg (''Invalid explain level: '' @ value), query_options)
           | SYNC_DDL \<Rightarrow> (OK, query_options\<lparr>sync_ddl := iequals_true value\<rparr>)
           | REQUEST_POOL \<Rightarrow> (OK, query_options\<lparr>request_pool := value\<rparr>)
           | V_CPU_CORES \<Rightarrow> (OK, query_options\<lparr>v_cpu_cores := atoi (c_str value)\<rparr>)
           | RESERVATION_REQUEST_TIMEOUT \<Rightarrow>
               (OK, query_options\<lparr>reservation_request_timeout := atoi (c_str value)\<rparr>)
           | DISABLE_CACHED_READS \<Rightarrow>
               (OK, query_options\<lparr>disable_cached_reads := iequals_true value\<rparr>)
           | DISABLE_OUTERMOST_TOPN \<Rightarrow>
               (OK, query_options\<lparr>disable_outermost_topn := iequals_true value\<rparr>)
           | RM_INITIAL_MEM \<Rightarrow>
               (case ParseMemValue ParseMemSpec value ''RM memory limit'' of
                  (Error msgs, reservation_size) \<Rightarrow> (Error msgs, query_options)
                | (OK, reservation_size) \<Rightarrow>
                    (OK, query_options\<lparr>rm_initial_mem := reservation_size\<rparr>))
           | QUERY_TIMEOUT_S \<Rightarrow> (OK, query_options\<lparr>opt_query_timeout_s := atoi (c_str value)\<rparr>)
           | MAX_BLOCK_MGR_MEMORY \<Rightarrow>
               (case ParseMemValue ParseMemSpec value ''block mgr memory limit'' of
                  (Error msgs, mem) \<Rightarrow> (Error msgs, query_options)
                | (OK, mem) \<Rightarrow> (OK, query_options\<lparr>max_block_mgr_memory := mem\<rparr>))))"

text \<open>
  \<open>ImpalaServer::ParseQueryOptions\<close>: the loop over the pieces between commas, and the
  function. An error ends the loop; the options set before it stay set.
\<close>

fun ParseQueryOptions_loop ::
  "(string \<Rightarrow> int \<times> bool) \<Rightarrow> string list \<Rightarrow> TQueryOptions \<Rightarrow> Status \<times> TQueryOptions" where
  "ParseQueryOptions_loop ParseMemSpec [] query_options = (OK, query_options)"
| "ParseQueryOptions_loop ParseMemSpec (kv_string # kv_pairs) query_options =
     (let kv_string = trim kv_string in
      if length kv_string = 0 then ParseQueryOptions_loop ParseMemSpec kv_pairs query_options
      else
        case boost_split kv_string ''='' of
          [key, value] \<Rightarrow>
            (case SetQueryOptions ParseMemSpec key value query_options of
               (Error msgs, query_options) \<Rightarrow> (Error msgs, query_options)
             | (OK, query_options) \<Rightarrow>
                 ParseQueryOptions_loop ParseMemSpec kv_pairs query_options)
        | key_value \<Rightarrow>
            (Status_msg (''Ignoring invalid configuration option '' @ kv_string @
               '': bad format (expected key=value)''), query_options))"

definition ParseQueryOptions ::
  "(string \<Rightarrow> int \<times> bool) \<Rightarrow> string \<Rightarrow> TQueryOptions \<Rightarrow> Status \<times> TQueryOptions" where
  "ParseQueryOptions ParseMemSpec options query_options =
     (if length options = 0 then (OK, query_options)
      else ParseQueryOptions_loop ParseMemSpec (boost_split options '','') query_options)"

text \<open>
  What \<open>operator<<\<close> writes into the \<open>stringstream\<close> of \<open>TQueryOptionsToMap\<close>: \<open>1\<close> or \<open>0\<close>
  for a \<open>bool\<close>, the decimal digits of an integer, a string as it is. How the two
  enumerations are written is decided outside the files: \<open>print_codec\<close> and \<open>print_level\<close>
  are parameters.
\<close>

definition print_bool :: "bool \<Rightarrow> string" where
  "print_bool b = (if b then ''1'' else ''0'')"

definition option_value ::
  "(THdfsCompression \<Rightarrow> string) \<Rightarrow> (TExplainLevel \<Rightarrow> string) \<Rightarrow> TQueryOptions
     \<Rightarrow> TImpalaQueryOptions \<Rightarrow> string" where
  "option_value print_codec print_level query_option option =
     (case option of
        ABORT_ON_ERROR \<Rightarrow> print_bool (abort_on_error query_option)
      | MAX_ERRORS \<Rightarrow> print_int (max_errors query_option)
      | DISABLE_CODEGEN \<Rightarrow> print_bool (disable_codegen query_option)
      | BATCH_SIZE \<Rightarrow> print_int (batch_size query_option)
      | MEM_LIMIT \<Rightarrow> print_int (mem_limit query_option)
      | NUM_NODES \<Rightarrow> print_int (num_nodes query_option)
      | MAX_SCAN_RANGE_LENGTH \<Rightarrow> print_int (max_scan_range_length query_option)
      | MAX_IO_BUFFERS \<Rightarrow> print_int (max_io_buffers query_option)
      | NUM_SCANNER_THREADS \<Rightarrow> print_int (num_scanner_threads query_option)
      | ALLOW_UNSUPPORTED_FORMATS \<Rightarrow> print_bool (allow_unsupported_formats query_option)
      | DEFAULT_ORDER_BY_LIMIT \<Rightarrow> print_int (default_order_by_limit query_option)
      | DEBUG_ACTION \<Rightarrow> debug_action query_option
      | ABORT_ON_DEFAULT_LIMIT_EXCEEDED \<Rightarrow>
          print_bool (abort_on_default_limit_exceeded query_option)
      | COMPRESSION_CODEC \<Rightarrow> print_codec (compression_codec query_option)
      | HBASE_CACHING \<Rightarrow> print_int (hbase_caching query_option)
      | HBASE_CACHE_BLOCKS \<Rightarrow> print_bool (hbase_cache_blocks query_option)
      | PARQUET_FILE_SIZE \<Rightarrow> print_int (parquet_file_size query_option)
      | EXPLAIN_LEVEL \<Rightarrow> print_level (explain_level query_option)
      | SYNC_DDL \<Rightarrow> print_bool (sync_ddl query_option)
      | REQUEST_POOL \<Rightarrow> request_pool query_option
      | V_CPU_CORES \<Rightarrow> print_int (v_cpu_cores query_option)
      | RESERVATION_REQUEST_TIMEOUT \<Rightarrow> print_int (reservation_request_timeout query_option)
      | DISABLE_CACHED_READS \<Rightarrow> print_bool (disable_cached_reads query_option)
      | DISABLE_OUTERMOST_TOPN \<Rightarrow> print_bool (disable_outermost_topn query_option)
      | RM_INITIAL_MEM \<Rightarrow> print_int (rm_initial_mem query_option)
      | QUERY_TIMEOUT_S \<Rightarrow> print_int (opt_query_timeout_s query_option)
      | MAX_BLOCK_MGR_MEMORY \<Rightarrow> print_int (max_block_mgr_memory query_option))"

text \<open>
  \<open>configuration\<close> is a \<open>std::map<string, string>\<close>: a list in the order of its keys, which
  \<open>std::string\<close> compares character by character. \<open>(*configuration)[k] = v\<close> sets the value
  of \<open>k\<close>.
\<close>

fun string_less :: "string \<Rightarrow> string \<Rightarrow> bool" where
  "string_less [] [] = False"
| "string_less [] (y # ys) = True"
| "string_less (x # xs) [] = False"
| "string_less (x # xs) (y # ys) =
     ((of_char x :: nat) < of_char y \<or> (x = y \<and> string_less xs ys))"

fun map_assign :: "string \<Rightarrow> string \<Rightarrow> (string \<times> string) list \<Rightarrow> (string \<times> string) list" where
  "map_assign k v [] = [(k, v)]"
| "map_assign k v (e # m) =
     (if k = fst e then (k, v) # m
      else if string_less k (fst e) then (k, v) # e # m
      else e # map_assign k v m)"

text \<open>\<open>ImpalaServer::TQueryOptionsToMap\<close>, on a \<open>configuration\<close> that is empty at the call.\<close>

definition TQueryOptionsToMap ::
  "(THdfsCompression \<Rightarrow> string) \<Rightarrow> (TExplainLevel \<Rightarrow> string) \<Rightarrow> TQueryOptions
     \<Rightarrow> (string \<times> string) list" where
  "TQueryOptionsToMap print_codec print_level query_option =
     fold (\<lambda>itr configuration.
             map_assign (snd itr) (option_value print_codec print_level query_option (fst itr))
               configuration)
       TImpalaQueryOptions_VALUES_TO_NAMES []"

text \<open>
  Modelled from the spec: \<open>ToString\<close>, the serialisation of the options that the round trip
  of the specification parses back; no function of the files writes it. The pairs of
  \<open>TQueryOptionsToMap\<close> are written as \<open>key=value\<close> and joined with commas, the format
  \<open>k=v,k=v\<close> of \<open>default_query_options\<close>.
\<close>

definition ToString ::
  "(THdfsCompression \<Rightarrow> string) \<Rightarrow> (TExplainLevel \<Rightarrow> string) \<Rightarrow> TQueryOptions \<Rightarrow> string" where
  "ToString print_codec print_level opts =
     join (map (\<lambda>e. fst e @ ''='' @ snd e) (TQueryOptionsToMap print_codec print_level opts))
       '',''"

text \<open>
  Values that the text format carries unchanged: no comma, no equals sign, no white space
  at the end.
\<close>

definition clean_value :: "string \<Rightarrow> bool" where
  "clean_value v \<longleftrightarrow>
     CHR '','' \<notin> set v \<and> CHR ''='' \<notin> set v \<and> (case rev v of [] \<Rightarrow> True | c # cs \<Rightarrow> \<not> isspace c)"

text \<open>
  The options that \<open>SetQueryOptions\<close> can give back from what \<open>TQueryOptionsToMap\<close> writes:
  the integers it reads with \<open>atoi\<close> fit 32 bits, the one it reads with \<open>atol\<close> fits 64 bits,
  the memory sizes are not negative, the two strings are carried unchanged by the text, and
  \<open>debug_action\<close>, which is read back through \<open>c_str\<close>, has no NUL.
\<close>

definition in_int32 :: "int \<Rightarrow> bool" where
  "in_int32 n \<longleftrightarrow> - (2 ^ 31) \<le> n \<and> n < 2 ^ 31"

definition representable :: "TQueryOptions \<Rightarrow> bool" where
  "representable q \<longleftrightarrow>
     in_int32 (max_errors q) \<and> in_int32 (batch_size q) \<and> in_int32 (num_nodes q) \<and>
     in_int32 (max_io_buffers q) \<and> in_int32 (num_scanner_threads q) \<and>
     in_int32 (default_order_by_limit q) \<and> in_int32 (hbase_caching q) \<and>
     in_int32 (v_cpu_cores q) \<and> in_int32 (reservation_request_timeout q) \<and>
     in_int32 (opt_query_timeout_s q) \<and>
     - (2 ^ 63) \<le> max_scan_range_length q \<and> max_scan_range_length q < 2 ^ 63 \<and>
     0 \<le> mem_limit q \<and> 0 \<le> parquet_file_size q \<and> 0 \<le> rm_initial_mem q \<and>
     0 \<le> max_block_mgr_memory q \<and>
     clean_value (debug_action q) \<and> CHR 0x00 \<notin> set (debug_action q) \<and>
     clean_value (request_pool q)"

text \<open>
  What the round trip needs of the three parts that are not in the files, at the options
  \<open>q\<close>: \<open>ParseMemSpec\<close> reads the four memory sizes as plain numbers of bytes, and the
  values of the two enumerations are written in a way that \<open>SetQueryOptions\<close> reads back.
\<close>

definition reads_back ::
  "(string \<Rightarrow> int \<times> bool) \<Rightarrow> (THdfsCompression \<Rightarrow> string) \<Rightarrow> (TExplainLevel \<Rightarrow> string)
     \<Rightarrow> TQueryOptions \<Rightarrow> bool" where
  "reads_back ParseMemSpec print_codec print_level q \<longleftrightarrow>
     ParseMemSpec (print_int (mem_limit q)) = (mem_limit q, False) \<and>
     ParseMemSpec (print_int (parquet_file_size q)) = (parquet_file_size q, False) \<and>
     ParseMemSpec (print_int (rm_initial_mem q)) = (rm_initial_mem q, False) \<and>
     ParseMemSpec (print_int (max_block_mgr_memory q)) = (max_block_mgr_memory q, False) \<and>
     clean_value (print_codec (compression_codec q)) \<and>
     clean_value (print_level (explain_level q)) \<and>
     (\<forall>q0. SetQueryOptions ParseMemSpec ''COMPRESSION_CODEC''
             (print_codec (compression_codec q)) q0
           = (OK, q0\<lparr>compression_codec := compression_codec q\<rparr>)) \<and>
     (\<forall>q0. SetQueryOptions ParseMemSpec ''EXPLAIN_LEVEL'' (print_level (explain_level q)) q0
           = (OK, q0\<lparr>explain_level := explain_level q\<rparr>))"

section \<open>Concrete values used to evaluate the model\<close>

definition example_session :: SessionState where
  "example_session = \<lparr>closed = False, expired = False, ref_count = 1, last_accessed_ms = 0,
     inflight_queries = {}\<rparr>"

definition example_query :: "TUniqueId \<Rightarrow> int \<Rightarrow> QueryExecState" where
  "example_query qid timeout =
     \<lparr>query_id = qid, session = 0, sql_stmt = ''select 1'', query_timeout_s = timeout,
      last_active = 0, is_active = False, coord = None, query_status = OK,
      done_calls = 0, info_strings = [],
      encoded_profile = ''profile''\<rparr>"

definition example_server :: ImpalaServer where
  "example_server =
     \<lparr>sessions = (\<lambda>r. example_session), session_state_map = Map.empty,
      query_exec_state_map = Map.empty, queries_by_timestamp = [], query_locations = [],
      query_log = [], query_log_index = Map.empty, profile_log = [], audit_log = [],
      is_offline = False, known_backends = []\<rparr>"

definition example_flags :: "int \<Rightarrow> int \<Rightarrow> Flags" where
  "example_flags idle_q log_size =
     \<lparr>idle_query_timeout = idle_q, idle_session_timeout = 0, query_log_size = log_size,
      log_query_to_file = False, audit_event_logging_enabled = False,
      abort_on_failed_audit_event = True\<rparr>"

definition example_registered :: ImpalaServer where
  "example_registered =
     snd (RegisterQuery (example_flags 0 25) (\<lambda>q. ''id'') 100 0 (example_query (1, 2) 0)
            example_server)"

definition example_unregistered :: ImpalaServer where
  "example_unregistered =
     (case UnregisterQuery (example_flags 0 25) (\<lambda>st. False) (\<lambda>x. x) 200 OK (1, 2) None
             example_registered of
        None \<Rightarrow> example_registered
      | Some r \<Rightarrow> snd r)"

definition example_env :: "Status \<Rightarrow> Status \<Rightarrow> Status \<Rightarrow> ExecuteEnv" where
  "example_env plan audit exec =
     \<lparr>new_query_id = (7, 7), query_ctx_sql = ''select 1'', query_ctx_timeout_s = 0,
      plan_status = plan, audit_append_status = audit, unregister_audit_append_status = OK,
      exec_status = exec, exec_coord = None\<rparr>"

definition example_audit_flags :: Flags where
  "example_audit_flags =
     (example_flags 0 25)\<lparr>audit_event_logging_enabled := True,
                          abort_on_failed_audit_event := False\<rparr>"

definition example_execute_plan_fails :: "(Status \<times> ImpalaServer) option" where
  "example_execute_plan_fails =
     Execute (example_flags 0 25) (\<lambda>q. ''id'') (\<lambda>st. False) (\<lambda>x. x) 100
       (example_env (Error [''AnalysisException'']) OK OK) 0 example_server"

definition example_execute_audit_fails :: "(Status \<times> ImpalaServer) option" where
  "example_execute_audit_fails =
     Execute example_audit_flags (\<lambda>q. ''id'') (\<lambda>st. False) (\<lambda>x. x) 100
       (example_env OK (Error [''disk full'']) OK) 0 example_server"

definition example_session_server :: ImpalaServer where
  "example_session_server = example_server\<lparr>session_state_map := [(9, 9) \<mapsto> 0]\<rparr>"

definition example_fragment :: TExecPlanFragmentParams where
  "example_fragment = \<lparr>fragment_instance_id = (4, 2), isset_output_sink = True\<rparr>"



definition example_address :: "string \<Rightarrow> TNetworkAddress" where
  "example_address h = \<lparr>hostname = h, port = 22000\<rparr>"

definition example_locations_server :: ImpalaServer where
  "example_locations_server =
     example_server\<lparr>known_backends :=
         [(''ida'', example_address ''a''), (''idb'', example_address ''b''),
          (''idc'', example_address ''c'')],
       query_locations :=
         [(example_address ''a'', [(1, 2), (1, 1)]), (example_address ''c'', [(1, 2)]),
          (example_address ''b'', [(1, 1)])]\<rparr>"

definition example_delta :: TTopicDelta where
  "example_delta = \<lparr>is_delta = True, topic_entries = [\<lparr>item_key = ''idd'', item_value = ''d''\<rparr>],
     topic_deletions = [''ida'', ''idb'']\<rparr>"

text \<open>
  Printers of the two enumerations by name (as the macro \<open>THRIFT_ENUM_OUTPUT_FN\<close> of Impala's
  util/debug-util does for \<open>THdfsCompression\<close>) and by number (as a plain C++ enum prints), and
  a \<open>ParseMemSpec\<close> that reads a number of bytes.
\<close>

fun example_print_codec :: "THdfsCompression \<Rightarrow> string" where
  "example_print_codec NONE = ''NONE''"
| "example_print_codec GZIP = ''GZIP''"
| "example_print_codec BZIP2 = ''BZIP2''"
| "example_print_codec DEFAULT = ''DEFAULT''"
| "example_print_codec SNAPPY = ''SNAPPY''"
| "example_print_codec SNAPPY_BLOCKED = ''SNAPPY_BLOCKED''"

fun example_print_level :: "TExplainLevel \<Rightarrow> string" where
  "example_print_level MINIMAL = ''0''"
| "example_print_level STANDARD = ''1''"
| "example_print_level EXTENDED = ''2''"
| "example_print_level VERBOSE = ''3''"

definition example_ParseMemSpec :: "string \<Rightarrow> int \<times> bool" where
  "example_ParseMemSpec value = (if value = [] then 0 else atol value, False)"

definition example_options :: TQueryOptions where
  "example_options =
     \<lparr>abort_on_error = True, max_errors = 100, disable_codegen = False, batch_size = 1024,
      mem_limit = 2000000000, num_nodes = 0, max_scan_range_length = 0, max_io_buffers = 0,
      num_scanner_threads = 4, allow_unsupported_formats = False, default_order_by_limit = -1,
      debug_action = '''', abort_on_default_limit_exceeded = False, compression_codec = SNAPPY,
      hbase_caching = 0, hbase_cache_blocks = False, parquet_file_size = 0,
      explain_level = STANDARD, sync_ddl = False, request_pool = ''root.default'',
      v_cpu_cores = 2, reservation_request_timeout = 300000, disable_cached_reads = False,
      disable_outermost_topn = False, rm_initial_mem = 0, opt_query_timeout_s = 60,
      max_block_mgr_memory = 0\<rparr>"

section \<open>Verified properties\<close>

subsection \<open>Idle-query timeout at registration\<close>







subsection \<open>The query log\<close>

lemma ArchiveQuery_disabled:
  "query_log_size flags = 0 \<Longrightarrow>
     query_log (ArchiveQuery flags now query s) = query_log s \<and>
     query_log_index (ArchiveQuery flags now query s) = query_log_index s"
  by (simp add: ArchiveQuery_def Let_def)

lemma ArchiveQuery_prepend:
  assumes "query_log_size flags \<noteq> 0"
  shows "\<exists>r. record_id r = query_id query \<and>
           (if 0 < query_log_size flags \<and> query_log_size flags \<le> int (length (query_log s))
            then query_log (ArchiveQuery flags now query s) = r # butlast (query_log s) \<and>
                 query_log_index (ArchiveQuery flags now query s) (record_id (last (query_log s))) = None
            else query_log (ArchiveQuery flags now query s) = r # query_log s)"
proof -
  define r where "r = (case coord query of
                         None \<Rightarrow> QueryStateRecord_of query (encoded_profile query)
                       | Some c \<Rightarrow> (QueryStateRecord_of query (encoded_profile query))
                                    \<lparr>record_exec_summary := Some (exec_summary c)\<rparr>)"
  have id: "record_id r = query_id query"
    by (simp add: r_def QueryStateRecord_of_def split: option.splits)
  show ?thesis
  proof (cases "0 < query_log_size flags \<and> query_log_size flags \<le> int (length (query_log s))")
    case True
    then have ne: "query_log s \<noteq> []" by auto
    from True assms ne
    have "query_log (ArchiveQuery flags now query s) = r # butlast (query_log s) \<and>
          query_log_index (ArchiveQuery flags now query s) (record_id (last (query_log s))) = None"
      by (simp add: ArchiveQuery_def Let_def r_def)
    with id True show ?thesis by auto
  next
    case False
    with assms have "query_log (ArchiveQuery flags now query s) = r # query_log s"
      by (auto simp add: ArchiveQuery_def Let_def r_def)
    with id False show ?thesis by auto
  qed
qed

text \<open>
  Claim C6, as the code has it. After \<open>ArchiveQuery\<close>: with \<open>query_log_size = 0\<close> the log and
  its index are unchanged; otherwise the new record (carrying the query's id) is the head of
  the log and the older records follow in their previous order, the oldest one being dropped,
  and its id erased from the index, exactly when \<open>0 < query_log_size \<le> length\<close> of the old
  log. Hence a log within a non-negative \<open>query_log_size\<close> stays within it, and for every
  negative \<open>query_log_size\<close> (not only \<open>-1\<close>) nothing is ever dropped.
\<close>

theorem ArchiveQuery_query_log:
  "(query_log_size flags = 0 \<longrightarrow>
      query_log (ArchiveQuery flags now query s) = query_log s \<and>
      query_log_index (ArchiveQuery flags now query s) = query_log_index s)
   \<and> (query_log_size flags \<noteq> 0 \<longrightarrow>
        (\<exists>r. record_id r = query_id query \<and>
           (if 0 < query_log_size flags \<and> query_log_size flags \<le> int (length (query_log s))
            then query_log (ArchiveQuery flags now query s) = r # butlast (query_log s) \<and>
                 query_log_index (ArchiveQuery flags now query s)
                   (record_id (last (query_log s))) = None
            else query_log (ArchiveQuery flags now query s) = r # query_log s)))
   \<and> (0 \<le> query_log_size flags \<and> int (length (query_log s)) \<le> query_log_size flags \<longrightarrow>
        int (length (query_log (ArchiveQuery flags now query s))) \<le> query_log_size flags)"
proof (intro conjI impI)
  assume "query_log_size flags = 0"
  then show "query_log (ArchiveQuery flags now query s) = query_log s"
    and "query_log_index (ArchiveQuery flags now query s) = query_log_index s"
    using ArchiveQuery_disabled by blast+
next
  assume "query_log_size flags \<noteq> 0"
  then show "\<exists>r. record_id r = query_id query \<and>
           (if 0 < query_log_size flags \<and> query_log_size flags \<le> int (length (query_log s))
            then query_log (ArchiveQuery flags now query s) = r # butlast (query_log s) \<and>
                 query_log_index (ArchiveQuery flags now query s)
                   (record_id (last (query_log s))) = None
            else query_log (ArchiveQuery flags now query s) = r # query_log s)"
    by (rule ArchiveQuery_prepend)
next
  assume b: "0 \<le> query_log_size flags \<and> int (length (query_log s)) \<le> query_log_size flags"
  show "int (length (query_log (ArchiveQuery flags now query s))) \<le> query_log_size flags"
  proof (cases "query_log_size flags = 0")
    case True
    with b ArchiveQuery_disabled[OF True, of now query s] show ?thesis by simp
  next
    case False
    from ArchiveQuery_prepend[OF False, of query s now] obtain r where
      r: "if 0 < query_log_size flags \<and> query_log_size flags \<le> int (length (query_log s))
            then query_log (ArchiveQuery flags now query s) = r # butlast (query_log s) \<and>
                 query_log_index (ArchiveQuery flags now query s) (record_id (last (query_log s))) = None
            else query_log (ArchiveQuery flags now query s) = r # query_log s"
      by blast
    show ?thesis
    proof (cases "0 < query_log_size flags \<and> query_log_size flags \<le> int (length (query_log s))")
      case True
      with r have "query_log (ArchiveQuery flags now query s) = r # butlast (query_log s)" by simp
      moreover from True have "query_log s \<noteq> []" by auto
      ultimately show ?thesis using b by simp
    next
      case False
      with r have "query_log (ArchiveQuery flags now query s) = r # query_log s" by simp
      with False b \<open>query_log_size flags \<noteq> 0\<close> show ?thesis by auto
    qed
  qed
qed

text \<open>
  Witness for C6: with \<open>query_log_size = 1\<close>, archiving query \<open>(3, 4)\<close> after query
  \<open>(1, 2)\<close> leaves a one-record log headed by \<open>(3, 4)\<close>, and \<open>(1, 2)\<close> is gone from the index.
\<close>

theorem ArchiveQuery_query_log_witness:
  "query_log_size (example_flags 0 1) \<noteq> 0
   \<and> map record_id (query_log (ArchiveQuery (example_flags 0 1) 0 (example_query (1, 2) 0)
         example_server)) = [(1, 2)]
   \<and> map record_id (query_log (ArchiveQuery (example_flags 0 1) 1 (example_query (3, 4) 0)
         (ArchiveQuery (example_flags 0 1) 0 (example_query (1, 2) 0) example_server))) = [(3, 4)]
   \<and> query_log_index (ArchiveQuery (example_flags 0 1) 1 (example_query (3, 4) 0)
         (ArchiveQuery (example_flags 0 1) 0 (example_query (1, 2) 0) example_server)) (1, 2) = None"
proof -
  let ?s1 = "ArchiveQuery (example_flags 0 1) 0 (example_query (1, 2) 0) example_server"
  have nz: "query_log_size (example_flags 0 1) \<noteq> 0"
    by (simp add: example_flags_def)
  have l1: "map record_id (query_log ?s1) = [(1, 2)]"
    by (simp add: ArchiveQuery_def example_flags_def example_query_def example_server_def
          Let_def QueryStateRecord_of_def)
  then have len: "length (query_log ?s1) = 1" and lst: "record_id (last (query_log ?s1)) = (1, 2)"
    by (auto simp: map_eq_Cons_conv)
  from ArchiveQuery_query_log [of "example_flags 0 1" 1 "example_query (3, 4) 0" ?s1] nz
  obtain r where r: "record_id r = query_id (example_query (3, 4) 0)"
    and c: "if 0 < query_log_size (example_flags 0 1) \<and>
               query_log_size (example_flags 0 1) \<le> int (length (query_log ?s1))
            then query_log (ArchiveQuery (example_flags 0 1) 1 (example_query (3, 4) 0) ?s1)
                   = r # butlast (query_log ?s1) \<and>
                 query_log_index (ArchiveQuery (example_flags 0 1) 1 (example_query (3, 4) 0) ?s1)
                   (record_id (last (query_log ?s1))) = None
            else query_log (ArchiveQuery (example_flags 0 1) 1 (example_query (3, 4) 0) ?s1)
                   = r # query_log ?s1"
    by blast
  have cond: "0 < query_log_size (example_flags 0 1) \<and>
               query_log_size (example_flags 0 1) \<le> int (length (query_log ?s1))"
    using len by (simp add: example_flags_def)
  from c cond have
    a: "query_log (ArchiveQuery (example_flags 0 1) 1 (example_query (3, 4) 0) ?s1)
          = r # butlast (query_log ?s1)"
    and b: "query_log_index (ArchiveQuery (example_flags 0 1) 1 (example_query (3, 4) 0) ?s1)
          (record_id (last (query_log ?s1))) = None"
    by simp_all
  from len have "butlast (query_log ?s1) = []"
    by (cases "query_log ?s1") simp_all
  with a r have "map record_id (query_log (ArchiveQuery (example_flags 0 1) 1
      (example_query (3, 4) 0) ?s1)) = [(3, 4)]"
    by (simp add: example_query_def)
  with nz l1 b lst show ?thesis by simp
qed

text \<open>
  Counterexample to C6 as stated: with \<open>query_log_size = -2\<close> (which is not \<open>-1\<close>) one
  archived query makes the log longer than \<open>max (query_log_size, 0) = 0\<close>.
\<close>

theorem ArchiveQuery_negative_size_counterexample:
  "query_log example_server = [] \<and>
   \<not> int (length (query_log (ArchiveQuery (example_flags 0 (-2)) 0 (example_query (1, 2) 0)
          example_server))) \<le> max (query_log_size (example_flags 0 (-2))) 0 \<and>
   query_log_size (example_flags 0 (-2)) \<noteq> -1"
  by (simp add: ArchiveQuery_def example_flags_def example_query_def example_server_def Let_def
        QueryStateRecord_of_def)

subsection \<open>Unregistering a query\<close>

lemma ArchiveQuery_registry:
  "query_exec_state_map (ArchiveQuery flags now query s) = query_exec_state_map s"
  "sessions (ArchiveQuery flags now query s) = sessions s"
  by (simp_all add: ArchiveQuery_def Let_def)

lemma CancelInternal_unknown:
  "query_exec_state_map s qid = None \<Longrightarrow> CancelInternal qid cause_opt s = (Status_msg ''Invalid or unknown query handle'', s)"
  by (simp add: CancelInternal_def GetQueryExecState_def)

lemma CancelInternal_known:
  "query_exec_state_map s qid = Some es \<Longrightarrow>
     snd (CancelInternal qid cause_opt s) =
       s\<lparr>query_exec_state_map := (query_exec_state_map s)(qid \<mapsto> Cancel cause_opt es)\<rparr>"
  by (simp add: CancelInternal_def GetQueryExecState_def)

lemma Cancel_fields:
  "session (Cancel c es) = session es" "query_id (Cancel c es) = query_id es"
  "coord (Cancel c es) = coord es"
  by (simp_all add: Cancel_def split: option.splits)

lemma UnregisterQuery_unknown:
  "query_exec_state_map s qid = None \<Longrightarrow>
     UnregisterQuery flags IsAuthorizationError PrintExecSummary now append_status qid cause_opt s
       = Some (False, s)"
  by (simp add: UnregisterQuery_def CancelInternal_unknown)

lemma UnregisterQuery_known:
  assumes "query_exec_state_map s qid = Some es"
  shows "(UnregisterQuery flags IsAuthorizationError PrintExecSummary now append_status qid cause_opt s = None
            \<and> audit_event_logging_enabled flags \<and> abort_on_failed_audit_event flags
            \<and> \<not> ok append_status)
         \<or> (\<exists>s'. UnregisterQuery flags IsAuthorizationError PrintExecSummary now append_status qid cause_opt s
                  = Some (True, s')
               \<and> query_exec_state_map s' = (query_exec_state_map s)(qid := None)
               \<and> sessions s' = (sessions s)(session es := (sessions s (session es))
                    \<lparr>inflight_queries := inflight_queries (sessions s (session es)) - {qid}\<rparr>))"
  using assms
  by (simp add: UnregisterQuery_def CancelInternal_def GetQueryExecState_def Let_def
        LogAuditRecord_def ArchiveQuery_registry Done_def Cancel_fields
      split: option.splits)


lemma example_registered_query:
  "query_exec_state_map example_registered (1, 2) = Some (example_query (1, 2) 0)"
  by (simp add: example_registered_def RegisterQuery_def example_flags_def example_query_def
        example_server_def example_session_def Let_def)

lemmas example_defs =
  example_flags_def example_query_def example_server_def example_session_def example_env_def
  example_audit_flags_def

lemma UnregisterQuery_exit_iff:
  assumes "query_exec_state_map s qid = Some es"
  shows "UnregisterQuery flags IsAuthorizationError PrintExecSummary now append_status qid cause_opt s = None
         \<longleftrightarrow> audit_event_logging_enabled flags
             \<and> IsAuthorizationError (query_status (Cancel cause_opt es))
             \<and> \<not> ok append_status \<and> abort_on_failed_audit_event flags"
  using assms
  by (auto simp add: UnregisterQuery_def CancelInternal_def GetQueryExecState_def Let_def
        LogAuditRecord_def split: option.splits)

text \<open>
  Claim C3. \<open>UnregisterQuery\<close> of an id that is not in the registry returns \<open>false\<close> and
  changes nothing. For a registered id the first call has exactly two outcomes. If audit
  logging is enabled, the query's status (after the cause of the call has been latched by
  \<open>CancelInternal\<close>) is an authorization error, the audit write fails and
  \<open>abort_on_failed_audit_event\<close> is set, the process exits inside \<open>LogAuditRecord\<close> and the
  call does not return. In every other case it returns \<open>true\<close>, the registry is the old one
  without the id, and the id is not in the owning session's in-flight set; every later call,
  whatever its arguments, then returns \<open>false\<close> and the server state it was given: registry,
  in-flight sets and archive are unchanged.
\<close>

theorem UnregisterQuery_idempotent:
  "(query_exec_state_map s qid = None \<longrightarrow>
      UnregisterQuery flags IsAuthorizationError PrintExecSummary now append_status qid cause_opt s
        = Some (False, s))
   \<and> (\<forall>es. query_exec_state_map s qid = Some es \<longrightarrow>
         (if audit_event_logging_enabled flags
             \<and> IsAuthorizationError (query_status (Cancel cause_opt es))
             \<and> \<not> ok append_status \<and> abort_on_failed_audit_event flags
          then UnregisterQuery flags IsAuthorizationError PrintExecSummary now append_status qid
                 cause_opt s = None
          else (\<exists>s'. UnregisterQuery flags IsAuthorizationError PrintExecSummary now
                        append_status qid cause_opt s = Some (True, s')
                  \<and> query_exec_state_map s' = (query_exec_state_map s)(qid := None)
                  \<and> qid \<notin> inflight_queries (sessions s' (session es))
                  \<and> (\<forall>flags' IsAuthorizationError' PrintExecSummary' now' append_status'
                         cause_opt'.
                        UnregisterQuery flags' IsAuthorizationError' PrintExecSummary' now'
                          append_status' qid cause_opt' s' = Some (False, s')))))"
proof (intro conjI allI impI)
  assume "query_exec_state_map s qid = None"
  then show "UnregisterQuery flags IsAuthorizationError PrintExecSummary now append_status qid
      cause_opt s = Some (False, s)"
    by (rule UnregisterQuery_unknown)
next
  fix es
  assume es: "query_exec_state_map s qid = Some es"
  let ?exits = "audit_event_logging_enabled flags
             \<and> IsAuthorizationError (query_status (Cancel cause_opt es))
             \<and> \<not> ok append_status \<and> abort_on_failed_audit_event flags"
  let ?u = "UnregisterQuery flags IsAuthorizationError PrintExecSummary now append_status qid
              cause_opt s"
  note ex = UnregisterQuery_exit_iff [OF es, of flags IsAuthorizationError PrintExecSummary now
      append_status cause_opt]
  have ret: "\<exists>s'. ?u = Some (True, s')
                  \<and> query_exec_state_map s' = (query_exec_state_map s)(qid := None)
                  \<and> qid \<notin> inflight_queries (sessions s' (session es))
                  \<and> (\<forall>flags' IsAuthorizationError' PrintExecSummary' now' append_status'
                         cause_opt'.
                        UnregisterQuery flags' IsAuthorizationError' PrintExecSummary' now'
                          append_status' qid cause_opt' s' = Some (False, s'))"
    if ne: "\<not> ?exits"
  proof -
    from ne ex have "?u \<noteq> None" by blast
    with UnregisterQuery_known [OF es, of flags IsAuthorizationError PrintExecSummary now
      append_status cause_opt]
    obtain s' where u: "?u = Some (True, s')"
      and m: "query_exec_state_map s' = (query_exec_state_map s)(qid := None)"
      and i: "sessions s' = (sessions s)(session es := (sessions s (session es))
                    \<lparr>inflight_queries := inflight_queries (sessions s (session es)) - {qid}\<rparr>)"
      by blast
    from m have gone: "query_exec_state_map s' qid = None" by simp
    from i have nin: "qid \<notin> inflight_queries (sessions s' (session es))" by simp
    from gone have again: "UnregisterQuery flags' IsAuthorizationError' PrintExecSummary' now'
                       append_status' qid cause_opt' s' = Some (False, s')"
      for flags' IsAuthorizationError' PrintExecSummary' now' append_status' cause_opt'
      by (rule UnregisterQuery_unknown)
    from u m nin again show ?thesis by blast
  qed
  show "if ?exits then ?u = None
        else (\<exists>s'. ?u = Some (True, s')
                  \<and> query_exec_state_map s' = (query_exec_state_map s)(qid := None)
                  \<and> qid \<notin> inflight_queries (sessions s' (session es))
                  \<and> (\<forall>flags' IsAuthorizationError' PrintExecSummary' now' append_status'
                         cause_opt'.
                        UnregisterQuery flags' IsAuthorizationError' PrintExecSummary' now'
                          append_status' qid cause_opt' s' = Some (False, s')))"
  proof (cases ?exits)
    case True
    with ex have "?u = None" by blast
    then show ?thesis unfolding if_P [OF True] .
  next
    case False
    show ?thesis unfolding if_not_P [OF False] by (rule ret [OF False])
  qed
qed

text \<open>
  Witness for C3: query \<open>(1, 2)\<close> is registered, unregistered (\<open>true\<close>, one record
  archived) and unregistered again (\<open>false\<close>, same state).
\<close>

theorem UnregisterQuery_idempotent_witness:
  "query_exec_state_map example_registered (1, 2) = Some (example_query (1, 2) 0)
   \<and> UnregisterQuery (example_flags 0 25) (\<lambda>st. False) (\<lambda>x. x) 200 OK (1, 2) None
        example_registered = Some (True, example_unregistered)
   \<and> UnregisterQuery (example_flags 0 25) (\<lambda>st. False) (\<lambda>x. x) 300 OK (1, 2) None
        example_unregistered = Some (False, example_unregistered)
   \<and> query_exec_state_map example_unregistered (1, 2) = None
   \<and> (1, 2) \<notin> inflight_queries (sessions example_unregistered 0)
   \<and> map record_id (query_log example_unregistered) = [(1, 2)]"
proof -
  have na: "\<not> audit_event_logging_enabled (example_flags 0 25)"
    by (simp add: example_flags_def)
  have sess: "session (example_query (1, 2) 0) = 0"
    by (simp add: example_query_def)
  from UnregisterQuery_idempotent [of example_registered "(1, 2)" "example_flags 0 25"
      "\<lambda>st. False" "\<lambda>x. x" 200 OK None, THEN conjunct2, rule_format,
      OF example_registered_query] na
  obtain s' where u: "UnregisterQuery (example_flags 0 25) (\<lambda>st. False) (\<lambda>x. x) 200 OK (1, 2) None
        example_registered = Some (True, s')"
    and gone: "query_exec_state_map s' = (query_exec_state_map example_registered)((1, 2) := None)"
    and nin: "(1, 2) \<notin> inflight_queries (sessions s' (session (example_query (1, 2) 0)))"
    and again: "\<And>flags' IsAuthorizationError' PrintExecSummary' now' append_status' cause_opt'.
                     UnregisterQuery flags' IsAuthorizationError' PrintExecSummary' now'
                       append_status' (1, 2) cause_opt' s' = Some (False, s')"
    by auto
  from u have eq: "example_unregistered = s'"
    by (simp add: example_unregistered_def)
  have lg: "map record_id (query_log example_unregistered) = [(1, 2)]"
    by (simp add: example_unregistered_def UnregisterQuery_def CancelInternal_def
          GetQueryExecState_def example_registered_query Cancel_def Let_def ArchiveQuery_def QueryStateRecord_of_def
          example_flags_def example_query_def Done_def example_registered_def RegisterQuery_def
          example_server_def example_session_def)
  from gone have gone': "query_exec_state_map s' (1, 2) = None" by simp
  from example_registered_query u gone' nin again sess lg show ?thesis
    unfolding eq by simp
qed

text \<open>
  Counterexample for C3 as stated (the first call returns \<open>true\<close> for every registered id):
  query \<open>(1, 2)\<close> is registered, audit logging is enabled with \<open>abort_on_failed_audit_event\<close>
  (its default), the call's cause is an authorization error and the audit write fails. The
  call ends the process instead of returning.
\<close>

theorem UnregisterQuery_exit_counterexample:
  "query_exec_state_map example_registered (1, 2) = Some (example_query (1, 2) 0)
   \<and> UnregisterQuery ((example_flags 0 25)\<lparr>audit_event_logging_enabled := True\<rparr>)
        (\<lambda>st. st = Error [''AuthorizationException: no privilege''])
        (\<lambda>x. x) 200 (Error [''disk full'']) (1, 2)
        (Some (Error [''AuthorizationException: no privilege''])) example_registered = None"
  by (simp add: UnregisterQuery_def CancelInternal_def GetQueryExecState_def
        example_registered_query Cancel_def Let_def LogAuditRecord_def
        example_flags_def example_query_def)


subsection \<open>Failure of \<open>Execute\<close> after registration\<close>

lemma ok_iff: "ok st \<longleftrightarrow> st = OK"
  by (cases st) simp_all

lemma RegisterQuery_success:
  assumes "\<not> closed (sessions s session_state)"
    and "query_exec_state_map s (query_id exec_state) = None"
  shows "\<exists>s1. RegisterQuery flags PrintId now session_state exec_state s = (OK, s1)
           \<and> query_exec_state_map s1 (query_id exec_state) = Some exec_state"
  using assms by (simp add: RegisterQuery_def Let_def)

lemma set_query_known:
  "query_exec_state_map s (query_id es) \<noteq> None \<Longrightarrow>
     query_exec_state_map (set_query es s) (query_id es) = Some es"
  by (simp add: set_query_def)

lemma UpdateQueryStatus_fields:
  "fst (UpdateQueryStatus st es) = st"
  "query_id (snd (UpdateQueryStatus st es)) = query_id es"
  "session (snd (UpdateQueryStatus st es)) = session es"
  by (simp_all add: UpdateQueryStatus_def)

lemma LogAuditRecord_registry:
  "LogAuditRecord flags a es s = Some (st, s') \<Longrightarrow>
     query_exec_state_map s' = query_exec_state_map s"
  by (auto simp: LogAuditRecord_def split: if_splits)

lemma ExecuteInternal_registered:
  assumes "\<not> is_offline s" and "\<not> closed (sessions s session_state)"
    and "query_exec_state_map s (new_query_id env) = None"
    and "ExecuteInternal flags PrintId now env session_state s = Some (status, registered, s1)"
  shows "registered
         \<and> (\<exists>es. query_exec_state_map s1 (new_query_id env) = Some es \<and> session es = session_state)
         \<and> status = (if ok (plan_status env) then exec_status env else plan_status env)"
proof -
  define es0 where "es0 = \<lparr>query_id = new_query_id env, session = session_state,
                           sql_stmt = query_ctx_sql env,
                           query_timeout_s = query_ctx_timeout_s env,
                           last_active = now, is_active = False, coord = None,
                           query_status = OK,
                           done_calls = 0, info_strings = [], encoded_profile = []\<rparr>"
  have id0: "query_id es0 = new_query_id env" "session es0 = session_state"
    by (simp_all add: es0_def)
  from RegisterQuery_success [of s session_state es0 flags PrintId now] assms(2,3) id0
  obtain r1 where r1: "RegisterQuery flags PrintId now session_state es0 s = (OK, r1)"
    and m1: "query_exec_state_map r1 (new_query_id env) = Some es0"
    by auto
  show ?thesis
    using assms(1,4) r1 m1 id0 unfolding ExecuteInternal_def es0_def [symmetric]
    by (auto simp: Let_def UpdateQueryStatus_def set_query_def LogAuditRecord_def ok_iff
          split: Status.splits option.splits if_splits prod.splits)
qed


text \<open>
  Claim C10, as the code has it. When registration succeeds (the server is online, the
  session is not closed, the new id is not registered) and \<open>Execute\<close> returns, its status
  is the planner's status if that is not \<open>OK\<close> and the status of \<open>Exec\<close> otherwise. If that
  status is not \<open>OK\<close> the query has been unregistered: it is neither in the registry nor in
  the session's in-flight set. The status of the audit record is not looked at: with an
  \<open>OK\<close> status the query stays registered.
\<close>

theorem Execute_failure_unregisters:
  assumes "\<not> is_offline s" and "\<not> closed (sessions s session_state)"
    and "query_exec_state_map s (new_query_id env) = None"
    and "Execute flags PrintId IsAuthorizationError PrintExecSummary now env session_state s
           = Some (status, s')"
  shows "status = (if ok (plan_status env) then exec_status env else plan_status env)
         \<and> (if ok status
              then query_exec_state_map s' (new_query_id env) \<noteq> None
              else query_exec_state_map s' (new_query_id env) = None
                 \<and> new_query_id env \<notin> inflight_queries (sessions s' session_state))"
proof -
  from assms(4) obtain st registered s1 where
    ei: "ExecuteInternal flags PrintId now env session_state s = Some (st, registered, s1)"
    by (auto simp: Execute_def split: option.splits)
  from ExecuteInternal_registered [OF assms(1-3) ei] obtain es where
    reg: registered and es: "query_exec_state_map s1 (new_query_id env) = Some es"
    and ses: "session es = session_state"
    and st: "st = (if ok (plan_status env) then exec_status env else plan_status env)"
    by blast
  have ex: "(if \<not> ok st \<and> registered
             then map_option (\<lambda>r. (st, snd r))
                 (UnregisterQuery flags IsAuthorizationError PrintExecSummary now
                    (unregister_audit_append_status env) (new_query_id env) (Some st) s1)
             else Some (st, s1)) = Some (status, s')"
    using assms(4) unfolding Execute_def ei by simp
  show ?thesis
  proof (cases "ok st")
    case True
    with ex have "status = st" "s' = s1"
      by simp_all
    with True es st show ?thesis by simp
  next
    case False
    with ex reg have
      m: "map_option (\<lambda>r. (st, snd r))
                 (UnregisterQuery flags IsAuthorizationError PrintExecSummary now
                    (unregister_audit_append_status env) (new_query_id env) (Some st) s1)
           = Some (status, s')"
      by auto
    then obtain r where
      u: "UnregisterQuery flags IsAuthorizationError PrintExecSummary now
            (unregister_audit_append_status env) (new_query_id env) (Some st) s1 = Some r"
      and r: "status = st" "s' = snd r"
      by (cases "UnregisterQuery flags IsAuthorizationError PrintExecSummary now
            (unregister_audit_append_status env) (new_query_id env) (Some st) s1") auto
    from UnregisterQuery_known [OF es, of flags IsAuthorizationError PrintExecSummary now
        "unregister_audit_append_status env" "Some st"] u r(2)
    have "query_exec_state_map s' = (query_exec_state_map s1)(new_query_id env := None)"
      and "sessions s' = (sessions s1)(session es := (sessions s1 (session es))
             \<lparr>inflight_queries := inflight_queries (sessions s1 (session es)) - {new_query_id env}\<rparr>)"
      by auto
    with False r(1) st ses show ?thesis by simp
  qed
qed


text \<open>
  Witness for C10: the planner fails on a fresh server; \<open>Execute\<close> returns the planner's
  error and query \<open>(7, 7)\<close> is gone from the registry and from the in-flight set.
\<close>

theorem Execute_failure_unregisters_witness:
  "\<not> is_offline example_server \<and> \<not> closed (sessions example_server 0)
   \<and> query_exec_state_map example_server
        (new_query_id (example_env (Error [''AnalysisException'']) OK OK)) = None
   \<and> map_option fst example_execute_plan_fails = Some (Error [''AnalysisException''])
   \<and> map_option (\<lambda>r. query_exec_state_map (snd r) (7, 7)) example_execute_plan_fails = Some None
   \<and> map_option (\<lambda>r. (7, 7) \<in> inflight_queries (sessions (snd r) 0)) example_execute_plan_fails
        = Some False"
proof -
  let ?env = "example_env (Error [''AnalysisException'']) OK OK"
  have h1: "\<not> is_offline example_server" and h2: "\<not> closed (sessions example_server 0)"
    and h3: "query_exec_state_map example_server (new_query_id ?env) = None"
    by (simp_all add: example_defs)
  have "\<exists>r. example_execute_plan_fails = Some r"
    by (simp add: example_execute_plan_fails_def Execute_def ExecuteInternal_def
          RegisterQuery_def UpdateQueryStatus_def UnregisterQuery_def CancelInternal_def
          GetQueryExecState_def set_query_def Let_def Status_msg_def example_defs
          Done_def Cancel_def)
  then obtain status s' where r: "example_execute_plan_fails = Some (status, s')"
    by force
  from Execute_failure_unregisters [OF h1 h2 h3 r [unfolded example_execute_plan_fails_def]]
  have "status = Error [''AnalysisException'']"
    and "query_exec_state_map s' (7, 7) = None"
    and "(7, 7) \<notin> inflight_queries (sessions s' 0)"
    by (auto simp: example_env_def)
  with h1 h2 h3 show ?thesis unfolding r by simp
qed

text \<open>
  Counterexample to C10 as stated: registration succeeds, the audit step returns a non-OK
  status (audit logging on, \<open>abort_on_failed_audit_event\<close> off, the write fails), planning and
  \<open>Exec\<close> succeed; \<open>Execute\<close> returns \<open>OK\<close> without unregistering, and the query is still in
  the registry and in the in-flight set.
\<close>

theorem Execute_audit_failure_counterexample:
  "\<not> is_offline example_server \<and> \<not> closed (sessions example_server 0)
   \<and> query_exec_state_map example_server (7, 7) = None
   \<and> map_option fst (LogAuditRecord example_audit_flags
         (audit_append_status (example_env OK (Error [''disk full'']) OK))
         (example_query (7, 7) 0) example_server) = Some (Error [''disk full''])
   \<and> map_option fst example_execute_audit_fails = Some OK
   \<and> map_option (\<lambda>r. query_exec_state_map (snd r) (7, 7) = None) example_execute_audit_fails
        = Some False
   \<and> map_option (\<lambda>r. (7, 7) \<in> inflight_queries (sessions (snd r) 0)) example_execute_audit_fails
        = Some True"
  by (simp add: example_execute_audit_fails_def Execute_def ExecuteInternal_def
          RegisterQuery_def UpdateQueryStatus_def LogAuditRecord_def
          set_query_def Let_def Status_msg_def example_defs)

subsection \<open>Session lookup\<close>

text \<open>
  Claim C7, as the code has it. \<open>GetSessionState\<close> of an unknown session id returns the
  error \<open>Invalid session id\<close> and a null handle in both modes. For a known id: without
  \<open>mark_active\<close> it returns \<open>OK\<close> and the handle and changes nothing; with \<open>mark_active\<close> it
  returns an error (and no new handle, and changes nothing) if the session is expired or,
  failing that, closed, and otherwise returns \<open>OK\<close> and the handle after incrementing
  \<open>ref_count\<close>; nothing else changes, and \<open>last_accessed_ms\<close> in particular is not refreshed.
\<close>

theorem GetSessionState_modes:
  "(session_state_map s session_id = None \<longrightarrow>
      GetSessionState flags DebugString session_id out mark_active s
        = (Status_msg ''Invalid session id'', None, s))
   \<and> (\<forall>i. session_state_map s session_id = Some i \<longrightarrow>
         GetSessionState flags DebugString session_id out False s = (OK, Some i, s)
       \<and> (expired (sessions s i) \<longrightarrow>
            GetSessionState flags DebugString session_id out True s
              = (Status_msg (''Client session expired due to more than '' @
                   print_int (idle_session_timeout flags) @
                   ''s of inactivity (last activity was at: '' @
                   DebugString (cpp_div (last_accessed_ms (sessions s i)) 1000) @ '').''),
                 out, s))
       \<and> (\<not> expired (sessions s i) \<and> closed (sessions s i) \<longrightarrow>
            GetSessionState flags DebugString session_id out True s
              = (Status_msg ''Session is closed'', out, s))
       \<and> (\<not> expired (sessions s i) \<and> \<not> closed (sessions s i) \<longrightarrow>
            GetSessionState flags DebugString session_id out True s
              = (OK, Some i,
                 s\<lparr>sessions := (sessions s)(i :=
                      (sessions s i)\<lparr>ref_count := ref_count (sessions s i) + 1\<rparr>)\<rparr>)
            \<and> last_accessed_ms (sessions (snd (snd
                  (GetSessionState flags DebugString session_id out True s))) i)
                = last_accessed_ms (sessions s i)))"
  by (simp add: GetSessionState_def)

text \<open>
  Witness for C7: session \<open>(9, 9)\<close> is open; an active lookup returns its handle with
  \<open>ref_count\<close> raised from 1 to 2, a passive lookup returns the handle and the same state,
  and the unknown id \<open>(3, 3)\<close> is refused.
\<close>

theorem GetSessionState_modes_witness:
  "session_state_map example_session_server (9, 9) = Some 0
   \<and> \<not> expired (sessions example_session_server 0) \<and> \<not> closed (sessions example_session_server 0)
   \<and> fst (GetSessionState (example_flags 0 25) (\<lambda>t. ''t'') (9, 9) None True
        example_session_server) = OK
   \<and> fst (snd (GetSessionState (example_flags 0 25) (\<lambda>t. ''t'') (9, 9) None True
        example_session_server)) = Some 0
   \<and> ref_count (sessions (snd (snd (GetSessionState (example_flags 0 25) (\<lambda>t. ''t'') (9, 9) None
        True example_session_server))) 0) = 2
   \<and> GetSessionState (example_flags 0 25) (\<lambda>t. ''t'') (9, 9) None False example_session_server
        = (OK, Some 0, example_session_server)
   \<and> fst (GetSessionState (example_flags 0 25) (\<lambda>t. ''t'') (3, 3) None True
        example_session_server) = Error [''Invalid session id'']"
proof -
  have m: "session_state_map example_session_server (9, 9) = Some 0"
    and n: "session_state_map example_session_server (3, 3) = None"
    and e: "\<not> expired (sessions example_session_server 0) \<and> \<not> closed (sessions example_session_server 0)"
    and rc: "ref_count (sessions example_session_server 0) = 1"
    by (simp_all add: example_session_server_def example_server_def example_session_def)
  note t = GetSessionState_modes [of example_session_server "(9, 9)" "example_flags 0 25"
      "\<lambda>t. ''t''" None True, THEN conjunct2, rule_format, OF m]
  note u = GetSessionState_modes [of example_session_server "(3, 3)" "example_flags 0 25"
      "\<lambda>t. ''t''" None True, THEN conjunct1, rule_format, OF n]
  from t e have a: "GetSessionState (example_flags 0 25) (\<lambda>t. ''t'') (9, 9) None True
      example_session_server
      = (OK, Some 0, example_session_server\<lparr>sessions := (sessions example_session_server)(0 :=
          (sessions example_session_server 0)\<lparr>ref_count :=
             ref_count (sessions example_session_server 0) + 1\<rparr>)\<rparr>)"
    by blast
  from t have b: "GetSessionState (example_flags 0 25) (\<lambda>t. ''t'') (9, 9) None False
      example_session_server = (OK, Some 0, example_session_server)"
    by blast
  from m e a b u rc show ?thesis by (simp add: Status_msg_def)
qed

text \<open>
  Counterexample to C7 as stated: after a successful lookup with \<open>mark_active\<close> the
  session's \<open>last_accessed_ms\<close> is what it was (the function reads no clock); the session
  differs from the one before the call in \<open>ref_count\<close> only.
\<close>

theorem GetSessionState_no_refresh_counterexample:
  "fst (GetSessionState (example_flags 0 25) (\<lambda>t. ''t'') (9, 9) None True
        example_session_server) = OK
   \<and> last_accessed_ms (sessions example_session_server 0) = 0
   \<and> last_accessed_ms (sessions (snd (snd (GetSessionState (example_flags 0 25) (\<lambda>t. ''t'')
        (9, 9) None True example_session_server))) 0) = 0
   \<and> sessions (snd (snd (GetSessionState (example_flags 0 25) (\<lambda>t. ''t'')
        (9, 9) None True example_session_server))) 0
      = (sessions example_session_server 0)\<lparr>ref_count := 2\<rparr>"
  by (simp add: GetSessionState_def example_session_server_def example_server_def
        example_session_def)

subsection \<open>Fragments: \<open>Cancel()\<close> after \<open>Prepare()\<close>\<close>

lemma cancel_after_prepare_snoc:
  "cancel_after_prepare R (evs @ [e]) \<longleftrightarrow>
     cancel_after_prepare R evs \<and>
     (case e of CancelCalled r \<Rightarrow> r \<in> set R \<or> (\<exists>st. PrepareReturned r st \<in> set evs)
      | _ \<Rightarrow> True)"
proof (induction evs arbitrary: R)
  case Nil
  then show ?case by (cases e) auto
next
  case (Cons a evs)
  then show ?case by (cases a; cases e) auto
qed

lemma cancel_after_prepare_started:
  "cancel_after_prepare R (evs @ [PrepareReturned r st, ExecThreadStarted r']) \<longleftrightarrow>
     cancel_after_prepare R evs"
  using cancel_after_prepare_snoc [of R "evs @ [PrepareReturned r st]" "ExecThreadStarted r'"]
    cancel_after_prepare_snoc [of R evs "PrepareReturned r st"]
  by simp

lemma backend_inv_initial: "backend_inv initial_backend"
  by (simp add: backend_inv_def initial_backend_def)

lemma backend_inv_serve: "backend_inv b \<Longrightarrow> backend_inv (serve print_id step b)"
proof (cases step)
  case (ExecPlanFragmentCalled p)
  assume "backend_inv b"
  with ExecPlanFragmentCalled show ?thesis
    by (auto simp: backend_inv_def StartPlanFragmentExecution_call_def cancel_after_prepare_snoc)
next
  case (PrepareReturns r i st)
  assume "backend_inv b"
  with PrepareReturns show ?thesis
    by (auto simp: backend_inv_def StartPlanFragmentExecution_return_def Let_def
          cancel_after_prepare_snoc cancel_after_prepare_started ok_iff split: if_splits)
next
  case (CancelPlanFragmentCalled i st)
  assume "backend_inv b"
  with CancelPlanFragmentCalled show ?thesis
    by (cases i)
       (fastforce simp: backend_inv_def CancelPlanFragment_def cancel_after_prepare_snoc
          split: option.splits)
next
  case (ExecThreadDone i)
  assume "backend_inv b"
  with ExecThreadDone show ?thesis
    by (auto simp: backend_inv_def RunExecPlanFragment_done_def)
qed

lemma backend_inv_run: "backend_inv b \<Longrightarrow> backend_inv (backend_run print_id steps b)"
  unfolding backend_run_def
  by (induction steps arbitrary: b) (simp_all add: backend_inv_serve)


text \<open>
  Claim C4. Whatever requests a backend serves, in whatever order their parts interleave,
  every \<open>Cancel()\<close> on a fragment object comes after the return of \<open>Prepare()\<close> on it.
  \<open>StartPlanFragmentExecution\<close> with a failing \<open>Prepare()\<close> returns that error and leaves the
  fragment map as it was; with a successful one it calls \<open>Prepare()\<close>, then registers
  the object (unless the id is taken) and starts the thread. \<open>CancelPlanFragment\<close> of an id that
  is not in the map returns \<open>INTERNAL_ERROR\<close> and calls nothing; of an id in the map it calls
  \<open>Cancel()\<close> on the object registered there.
\<close>

theorem Cancel_never_before_Prepare:
  "cancel_after_prepare [] (events (backend_run print_id steps initial_backend))
   \<and> (isset_output_sink exec_params \<and> \<not> ok prepare_status \<longrightarrow>
        fst (StartPlanFragmentExecution exec_params prepare_status b) = prepare_status
        \<and> fragment_exec_state_map (snd (StartPlanFragmentExecution exec_params prepare_status b))
            = fragment_exec_state_map b)
   \<and> (isset_output_sink exec_params \<and> ok prepare_status \<longrightarrow>
        fst (StartPlanFragmentExecution exec_params prepare_status b) = OK
        \<and> events (snd (StartPlanFragmentExecution exec_params prepare_status b))
            = events b @ [PrepareCalled (next_fragment_ref b),
                          PrepareReturned (next_fragment_ref b) prepare_status,
                          ExecThreadStarted (next_fragment_ref b)]
        \<and> fragment_exec_state_map (snd (StartPlanFragmentExecution exec_params prepare_status b))
            = (if fragment_exec_state_map b (fragment_instance_id exec_params) = None
               then (fragment_exec_state_map b)
                      (fragment_instance_id exec_params \<mapsto> next_fragment_ref b)
               else fragment_exec_state_map b))
   \<and> (fragment_exec_state_map b instance_id = None \<longrightarrow>
        CancelPlanFragment print_id instance_id cancel_status b
          = (\<lparr>status_code = INTERNAL_ERROR,
              error_msgs = [''unknown fragment id: '' @ print_id instance_id]\<rparr>, b))
   \<and> (\<forall>r. fragment_exec_state_map b instance_id = Some r \<longrightarrow>
        events (snd (CancelPlanFragment print_id instance_id cancel_status b))
          = events b @ [CancelCalled r])"
proof (intro conjI)
  show "cancel_after_prepare [] (events (backend_run print_id steps initial_backend))"
    using backend_inv_run [OF backend_inv_initial, of print_id steps]
    by (simp add: backend_inv_def)
qed (simp_all add: StartPlanFragmentExecution_def StartPlanFragmentExecution_call_def
       StartPlanFragmentExecution_return_def CancelPlanFragment_def Let_def ok_iff)

text \<open>
  Witness for C4: a cancel request that arrives while \<open>Prepare()\<close> runs finds no fragment;
  one that arrives after its return reaches the object. A failing \<open>Prepare()\<close> registers
  nothing.
\<close>

theorem Cancel_never_before_Prepare_witness:
  "events (backend_run (\<lambda>i. ''id'')
      [ExecPlanFragmentCalled example_fragment, CancelPlanFragmentCalled (4, 2) OK,
       PrepareReturns 0 (4, 2) OK, CancelPlanFragmentCalled (4, 2) OK] initial_backend)
     = [PrepareCalled 0, PrepareReturned 0 OK, ExecThreadStarted 0, CancelCalled 0]
   \<and> cancel_after_prepare [] (events (backend_run (\<lambda>i. ''id'')
      [ExecPlanFragmentCalled example_fragment, CancelPlanFragmentCalled (4, 2) OK,
       PrepareReturns 0 (4, 2) OK, CancelPlanFragmentCalled (4, 2) OK] initial_backend))
   \<and> isset_output_sink example_fragment \<and> \<not> ok (Error [''no memory''])
   \<and> StartPlanFragmentExecution example_fragment (Error [''no memory'']) initial_backend
       = (Error [''no memory''],
          initial_backend\<lparr>next_fragment_ref := 1,
            events := [PrepareCalled 0, PrepareReturned 0 (Error [''no memory''])]\<rparr>)
   \<and> fragment_exec_state_map (snd (StartPlanFragmentExecution example_fragment
         (Error [''no memory'']) initial_backend)) (4, 2) = None
   \<and> fst (CancelPlanFragment (\<lambda>i. ''id'') (4, 2) OK initial_backend)
       = \<lparr>status_code = INTERNAL_ERROR, error_msgs = [''unknown fragment id: id'']\<rparr>"
proof -
  let ?steps = "[ExecPlanFragmentCalled example_fragment, CancelPlanFragmentCalled (4, 2) OK,
       PrepareReturns 0 (4, 2) OK, CancelPlanFragmentCalled (4, 2) OK]"
  note t = Cancel_never_before_Prepare [of "\<lambda>i. ''id''" ?steps example_fragment
      "Error [''no memory'']" initial_backend "(4, 2)" OK]
  have sink: "isset_output_sink example_fragment \<and> \<not> ok (Error [''no memory''])"
    by (simp add: example_fragment_def)
  have none: "fragment_exec_state_map initial_backend (4, 2) = None"
    by (simp add: initial_backend_def)
  have ev: "events (backend_run (\<lambda>i. ''id'') ?steps initial_backend)
     = [PrepareCalled 0, PrepareReturned 0 OK, ExecThreadStarted 0, CancelCalled 0]"
    by (simp add: backend_run_def StartPlanFragmentExecution_call_def
          StartPlanFragmentExecution_return_def CancelPlanFragment_def Let_def
          example_fragment_def initial_backend_def)
  have st: "StartPlanFragmentExecution example_fragment (Error [''no memory'']) initial_backend
       = (Error [''no memory''],
          initial_backend\<lparr>next_fragment_ref := 1,
            events := [PrepareCalled 0, PrepareReturned 0 (Error [''no memory''])]\<rparr>)"
    by (simp add: StartPlanFragmentExecution_def StartPlanFragmentExecution_call_def
          StartPlanFragmentExecution_return_def Let_def example_fragment_def initial_backend_def)
  from t sink have "fragment_exec_state_map (snd (StartPlanFragmentExecution example_fragment
         (Error [''no memory'']) initial_backend)) = fragment_exec_state_map initial_backend"
    by blast
  with none have gone: "fragment_exec_state_map (snd (StartPlanFragmentExecution example_fragment
         (Error [''no memory'']) initial_backend)) (4, 2) = None"
    by simp
  from t none have c: "CancelPlanFragment (\<lambda>i. ''id'') (4, 2) OK initial_backend
          = (\<lparr>status_code = INTERNAL_ERROR,
              error_msgs = [''unknown fragment id: '' @ ''id'']\<rparr>, initial_backend)"
    by blast
  from t have "cancel_after_prepare [] (events (backend_run (\<lambda>i. ''id'') ?steps initial_backend))"
    by blast
  with ev sink st gone c show ?thesis by simp
qed

subsection \<open>The catalog barrier\<close>





subsection \<open>Cancellation on membership loss\<close>

lemma set_add_failed_host_keys:
  "fst ` set (add_failed_host q a tc) = insert q (fst ` set tc)"
  by (induction q a tc rule: add_failed_host.induct) (simp_all add: insert_commute)

lemma add_failed_host_wf:
  "to_cancel_wf tc \<Longrightarrow> to_cancel_wf (add_failed_host q a tc)"
proof (induction tc)
  case Nil
  then show ?case by (simp add: to_cancel_wf_def)
next
  case (Cons e tc)
  obtain k hs where e: "e = (k, hs)" by (cases e)
  from Cons.prems have wf: "to_cancel_wf tc"
    by (simp add: to_cancel_wf_def)
  from Cons.IH [OF wf] Cons.prems e show ?case
    using set_add_failed_host_keys [of q a tc]
    by (auto simp: to_cancel_wf_def)
qed

lemma add_failed_host_hosts:
  "to_cancel_wf tc \<Longrightarrow>
     hosts_of (add_failed_host q a tc) q' = (if q' = q then hosts_of tc q @ [a] else hosts_of tc q')"
proof (induction tc)
  case Nil
  then show ?case by (simp add: hosts_of_def)
next
  case (Cons e tc)
  obtain k hs where e: "e = (k, hs)" by (cases e)
  from Cons.prems have wf: "to_cancel_wf tc"
    by (simp add: to_cancel_wf_def)
  have notin: "map_of tc q = None" if "q < k"
  proof -
    from Cons.prems e have "\<forall>x \<in> fst ` set tc. k < x" by (auto simp: to_cancel_wf_def)
    with that have "q \<notin> fst ` set tc" by auto
    then show ?thesis by (simp add: map_of_eq_None_iff)
  qed
  from Cons.IH [OF wf] e notin show ?case
    by (auto simp: hosts_of_def)
qed

lemma fold_add_failed_host:
  "to_cancel_wf tc \<Longrightarrow> distinct qs \<Longrightarrow>
     to_cancel_wf (fold (\<lambda>q. add_failed_host q a) qs tc) \<and>
     hosts_of (fold (\<lambda>q. add_failed_host q a) qs tc) q' =
       (if q' \<in> set qs then hosts_of tc q' @ [a] else hosts_of tc q')"
proof (induction qs arbitrary: tc)
  case Nil
  then show ?case by simp
next
  case (Cons q qs)
  from Cons.prems have wf: "to_cancel_wf (add_failed_host q a tc)"
    by (simp add: add_failed_host_wf)
  from Cons.prems have d: "distinct qs" and nin: "q \<notin> set qs" by simp_all
  from Cons.IH [OF wf d] nin Cons.prems(1) show ?case
    by (auto simp: add_failed_host_hosts)
qed

lemma scan_query_locations_result:
  assumes "scan_query_locations m locs tc = (locs', tc', closed_connections)"
    and "to_cancel_wf tc" and "\<forall>e \<in> set locs. distinct (snd e)"
  shows "locs' = filter (\<lambda>e. fst e \<in> set m) locs
         \<and> closed_connections = filter (\<lambda>a. a \<notin> set m) (map fst locs)
         \<and> to_cancel_wf tc'
         \<and> (\<forall>q. hosts_of tc' q = hosts_of tc q @ failed_hosts m q locs)"
  using assms
proof (induction locs arbitrary: tc locs' tc' closed_connections)
  case Nil
  then show ?case by (simp add: failed_hosts_def)
next
  case (Cons e locs)
  obtain addr qids where e: "e = (addr, qids)" by (cases e)
  from Cons.prems(3) e have dq: "distinct qids" and dl: "\<forall>e \<in> set locs. distinct (snd e)"
    by simp_all
  show ?case
  proof (cases "addr \<in> set m")
    case True
    obtain l t c where r: "scan_query_locations m locs tc = (l, t, c)"
      by (cases "scan_query_locations m locs tc") auto
    with Cons.prems(1) e True have eq: "locs' = (addr, qids) # l" "tc' = t" "closed_connections = c"
      by simp_all
    from Cons.IH [OF r Cons.prems(2) dl] eq e True show ?thesis
      by (simp add: failed_hosts_def)
  next
    case False
    define tc1 where "tc1 = fold (\<lambda>query_id. add_failed_host query_id addr) qids tc"
    obtain l t c where r: "scan_query_locations m locs tc1 = (l, t, c)"
      by (cases "scan_query_locations m locs tc1") auto
    with Cons.prems(1) e False have eq: "locs' = l" "tc' = t" "closed_connections = addr # c"
      by (simp_all add: tc1_def)
    from fold_add_failed_host [OF Cons.prems(2) dq, of addr] have wf1: "to_cancel_wf tc1"
      and h1: "\<And>q. hosts_of tc1 q = (if q \<in> set qids then hosts_of tc q @ [addr] else hosts_of tc q)"
      by (simp_all add: tc1_def)
    from Cons.IH [OF r wf1 dl] eq e False h1 show ?thesis
      by (simp add: failed_hosts_def)
  qed
qed

lemma to_cancel_wf_keys:
  assumes "to_cancel_wf tc"
  shows "distinct (map fst tc)" and "fst ` set tc = {q. hosts_of tc q \<noteq> []}"
    and "\<And>e. e \<in> set tc \<Longrightarrow> snd e = hosts_of tc (fst e)"
proof -
  from assms have s: "sorted_wrt (<) (map fst tc)" and ne: "\<forall>e \<in> set tc. snd e \<noteq> []"
    by (simp_all add: to_cancel_wf_def)
  from s show d: "distinct (map fst tc)"
    by (simp add: strict_sorted_iff)
  show m: "snd e = hosts_of tc (fst e)" if "e \<in> set tc" for e
  proof -
    from that d have "map_of tc (fst e) = Some (snd e)"
      using map_of_is_SomeI [of tc "fst e" "snd e"] by simp
    then show ?thesis by (simp add: hosts_of_def)
  qed
  show "fst ` set tc = {q. hosts_of tc q \<noteq> []}"
  proof (intro set_eqI iffI)
    fix q assume "q \<in> fst ` set tc"
    then obtain e where e: "e \<in> set tc" "q = fst e" by auto
    with m [OF e(1)] ne show "q \<in> {q. hosts_of tc q \<noteq> []}" by auto
  next
    fix q assume "q \<in> {q. hosts_of tc q \<noteq> []}"
    then have "map_of tc q \<noteq> None" by (auto simp: hosts_of_def split: option.splits)
    then show "q \<in> fst ` set tc" by (simp add: map_of_eq_None_iff)
  qed
qed


lemma failed_hosts_nonempty:
  "failed_hosts m q locs \<noteq> [] \<longleftrightarrow> (\<exists>e \<in> set locs. fst e \<notin> set m \<and> q \<in> set (snd e))"
  by (auto simp: failed_hosts_def filter_empty_conv)

lemma backend_insert_map:
  "map_of (backend_insert k a kb) = [k \<mapsto> a] ++ map_of kb"
  by (rule ext) (auto simp: backend_insert_def map_add_def map_of_eq_None_iff split: option.splits)

lemma backend_insert_distinct:
  "distinct (map fst kb) \<Longrightarrow> distinct (map fst (backend_insert k a kb))"
  by (simp add: backend_insert_def)

lemma backend_erase_map:
  "map_of (backend_erase k kb) = (map_of kb)(k := None)"
  by (rule ext) (induction kb, auto simp: backend_erase_def)

lemma backend_erase_distinct:
  "distinct (map fst kb) \<Longrightarrow> distinct (map fst (backend_erase k kb))"
  by (simp add: backend_erase_def distinct_map_filter)

lemma fold_backend_erase:
  "distinct (map fst kb) \<Longrightarrow>
     distinct (map fst (fold backend_erase ks kb))
     \<and> map_of (fold backend_erase ks kb) = map_of kb |` (- set ks)"
proof (induction ks arbitrary: kb)
  case Nil
  then show ?case by simp
next
  case (Cons k ks)
  from Cons.prems have d: "distinct (map fst (backend_erase k kb))"
    by (rule backend_erase_distinct)
  from Cons.IH [OF d] show ?case
    by (auto simp: backend_erase_map restrict_map_def fun_eq_iff)
qed

lemma fold_backend_insert:
  "distinct (map fst kb) \<Longrightarrow>
     distinct (map fst (fold (\<lambda>item kb. case deserialize (item_value item) of
                                       None \<Rightarrow> kb
                                     | Some address \<Rightarrow> backend_insert (item_key item) address kb)
                          items kb))
     \<and> map_of (fold (\<lambda>item kb. case deserialize (item_value item) of
                                       None \<Rightarrow> kb
                                     | Some address \<Rightarrow> backend_insert (item_key item) address kb)
                          items kb)
        = map_of (List.map_filter (\<lambda>item. map_option (Pair (item_key item))
                                     (deserialize (item_value item))) items) ++ map_of kb"
proof (induction items arbitrary: kb)
  case Nil
  then show ?case by (simp add: List.map_filter_simps)
next
  case (Cons item items)
  show ?case
  proof (cases "deserialize (item_value item)")
    case None
    with Cons.IH [OF Cons.prems] show ?thesis
      by (simp add: List.map_filter_simps)
  next
    case (Some a)
    from Cons.prems have d: "distinct (map fst (backend_insert (item_key item) a kb))"
      by (rule backend_insert_distinct)
    from Cons.IH [OF d] Some show ?thesis
      by (simp add: List.map_filter_simps backend_insert_map map_add_assoc [symmetric])
         (simp add: map_add_def fun_eq_iff split: option.splits)
  qed
qed

text \<open>
  Claim C8. \<open>MembershipCallback\<close> on a membership delta first brings \<open>known_backends_\<close> up
  to date: the entries it had (none, if the update is not a delta) win over the additions of
  the update that deserialize, of which the first for a key wins, and the deleted ids are
  removed. A backend address has failed if no backend of this new map has it. The entries of
  \<open>query_locations_\<close> of failed addresses are erased (the others stay, in order), and the
  cached connections to them are closed. If the queue would not overflow, the work offered
  holds exactly one item for each query that was located on a failed address and for no
  other query; each item is of the cancel kind (\<open>unregister = false\<close>) and its cause is
  \<open>Cancelled due to unreachable impalad(s): \<close> followed by the failed addresses of that query,
  separated by a comma and a space. If the queue would overflow, no work is offered. (The
  backend ids of \<open>known_backends_\<close> are the keys of a map and the query ids of one location
  are a set: none twice.)
\<close>

theorem MembershipCallback_cancels:
  assumes "MembershipCallback print_addr deserialize (Some delta) queue_size s
             = (s', closed_connections, work)"
    and "\<forall>e \<in> set (query_locations s). distinct (snd e)"
    and "distinct (map fst (known_backends s))"
  shows "let additions = List.map_filter
                 (\<lambda>item. map_option (Pair (item_key item)) (deserialize (item_value item)))
                 (topic_entries delta);
             backends = (map_of additions
                           ++ map_of (if is_delta delta then known_backends s else []))
                        |` (- set (topic_deletions delta));
             failed = (\<lambda>addr. addr \<notin> ran backends);
             affected = {q. \<exists>e \<in> set (query_locations s). failed (fst e) \<and> q \<in> set (snd e)}
         in map_of (known_backends s') = backends
          \<and> query_locations s' = filter (\<lambda>e. \<not> failed (fst e)) (query_locations s)
          \<and> closed_connections = filter failed (map fst (query_locations s))
          \<and> (if queue_size + card affected > MAX_CANCELLATION_QUEUE_SIZE
              then work = []
              else distinct (map work_query_id work)
                 \<and> work_query_id ` set work = affected
                 \<and> (\<forall>w \<in> set work.
                       \<not> unregister w \<and>
                       cause w = Status_msg
                         (''Cancelled due to unreachable impalad(s): '' @
                          join (map print_addr
                                  (map fst (filter (\<lambda>e. failed (fst e)
                                                       \<and> work_query_id w \<in> set (snd e))
                                              (query_locations s)))) '', '')))"
proof -
  define kb0 where "kb0 = (if \<not> is_delta delta then [] else known_backends s)"
  define kb1 where "kb1 = fold (\<lambda>item kb. case deserialize (item_value item) of
                                       None \<Rightarrow> kb
                                     | Some address \<Rightarrow> backend_insert (item_key item) address kb)
                      (topic_entries delta) kb0"
  define kb2 where "kb2 = fold backend_erase (topic_deletions delta) kb1"
  define m where "m = map snd kb2"
  define additions where "additions = List.map_filter
                 (\<lambda>item. map_option (Pair (item_key item)) (deserialize (item_value item)))
                 (topic_entries delta)"
  define backends where "backends = (map_of additions
                           ++ map_of (if is_delta delta then known_backends s else []))
                        |` (- set (topic_deletions delta))"
  define failed where "failed = (\<lambda>addr. addr \<notin> ran backends)"
  define affected where "affected = {q. \<exists>e \<in> set (query_locations s).
                        failed (fst e) \<and> q \<in> set (snd e)}"
  obtain locs tc cl where sc: "scan_query_locations m (query_locations s) [] = (locs, tc, cl)"
    by (cases "scan_query_locations m (query_locations s) []") auto
  define mk where "mk = (\<lambda>cancellation_entry :: TUniqueId \<times> TNetworkAddress list.
                              \<lparr>work_query_id = fst cancellation_entry,
                               cause = Status_msg
                                 (''Cancelled due to unreachable impalad(s): '' @
                                  join (map print_addr (snd cancellation_entry)) '', ''),
                               unregister = False\<rparr>)"
  have res: "s' = s\<lparr>known_backends := kb2, query_locations := locs\<rparr>"
    "closed_connections = cl"
    "work = (if queue_size + length tc > MAX_CANCELLATION_QUEUE_SIZE then [] else map mk tc)"
    using assms(1) sc
    unfolding MembershipCallback_def kb2_def kb1_def kb0_def m_def mk_def
    by (simp_all add: Let_def)
  have d0: "distinct (map fst kb0)"
    using assms(3) by (simp add: kb0_def)
  have k0: "map_of kb0 = map_of (if is_delta delta then known_backends s else [])"
    by (simp add: kb0_def)
  from fold_backend_insert [OF d0, of deserialize "topic_entries delta"]
  have d1: "distinct (map fst kb1)" and k1: "map_of kb1 = map_of additions ++ map_of kb0"
    by (simp_all add: kb1_def additions_def)
  from fold_backend_erase [OF d1, of "topic_deletions delta"]
  have d2: "distinct (map fst kb2)"
    and k2: "map_of kb2 = map_of kb1 |` (- set (topic_deletions delta))"
    by (simp_all add: kb2_def)
  have kb: "map_of kb2 = backends"
    by (simp add: k2 k1 k0 backends_def)
  have mset: "set m = ran backends"
    using ran_distinct [OF d2] by (simp add: m_def kb)
  have fm: "failed a \<longleftrightarrow> a \<notin> set m" for a
    by (simp add: failed_def mset)
  have wf0: "to_cancel_wf []" by (simp add: to_cancel_wf_def)
  have h0: "hosts_of [] q = []" for q
    by (simp add: hosts_of_def)
  from scan_query_locations_result [OF sc wf0 assms(2)] have
    locs: "locs = filter (\<lambda>e. fst e \<in> set m) (query_locations s)"
    and cl: "cl = filter (\<lambda>a. a \<notin> set m) (map fst (query_locations s))"
    and wf: "to_cancel_wf tc"
    and hs: "\<forall>q. hosts_of tc q = hosts_of [] q @ failed_hosts m q (query_locations s)"
    by blast+
  from hs have hosts: "hosts_of tc q = failed_hosts m q (query_locations s)" for q
    by (simp add: h0 del: split_paired_All)
  have fh: "failed_hosts m q (query_locations s)
              = map fst (filter (\<lambda>e. failed (fst e) \<and> q \<in> set (snd e)) (query_locations s))"
    for q
    by (simp add: failed_hosts_def fm)
  note keys = to_cancel_wf_keys [OF wf]
  have aff: "fst ` set tc = affected"
    unfolding keys(2) affected_def by (simp add: hosts failed_hosts_nonempty fm)
  have len: "length tc = card affected"
    using keys(1) aff distinct_card [of "map fst tc"] by simp
  have wq: "map work_query_id (map mk tc) = map fst tc"
    by (simp add: mk_def)
  have each: "\<not> unregister w \<and>
                      cause w = Status_msg
                        (''Cancelled due to unreachable impalad(s): '' @
                         join (map print_addr
                                 (map fst (filter (\<lambda>e. failed (fst e)
                                                       \<and> work_query_id w \<in> set (snd e))
                                              (query_locations s)))) '', '')"
    if "w \<in> set (map mk tc)" for w
  proof -
    from that obtain e where e: "e \<in> set tc" "w = mk e" by auto
    from keys(3) [OF e(1)] hosts have "snd e = failed_hosts m (fst e) (query_locations s)"
      by simp
    with e(2) show ?thesis by (simp add: mk_def fh)
  qed
  have b: "map_of (known_backends s') = backends"
    by (simp add: res(1) kb)
  have l: "query_locations s' = filter (\<lambda>e. \<not> failed (fst e)) (query_locations s)"
    by (simp add: res(1) locs fm)
  have c: "closed_connections = filter failed (map fst (query_locations s))"
  proof -
    have "failed = (\<lambda>a. a \<notin> set m)" by (simp add: fun_eq_iff fm)
    then show ?thesis by (simp add: res(2) cl)
  qed
  have w: "if queue_size + card affected > MAX_CANCELLATION_QUEUE_SIZE
              then work = []
              else distinct (map work_query_id work)
                 \<and> work_query_id ` set work = affected
                 \<and> (\<forall>w \<in> set work.
                       \<not> unregister w \<and>
                       cause w = Status_msg
                         (''Cancelled due to unreachable impalad(s): '' @
                          join (map print_addr
                                  (map fst (filter (\<lambda>e. failed (fst e)
                                                       \<and> work_query_id w \<in> set (snd e))
                                              (query_locations s)))) '', ''))"
  proof (cases "queue_size + card affected > MAX_CANCELLATION_QUEUE_SIZE")
    case True
    with res(3) len have "work = []" by simp
    with True show ?thesis by simp
  next
    case False
    with res(3) len have w: "work = map mk tc" by simp
    have "distinct (map work_query_id work)" unfolding w wq by (rule keys(1))
    moreover have "work_query_id ` set work = affected"
      using aff unfolding w set_map [symmetric] wq by simp
    ultimately show ?thesis
      using False each unfolding w by simp
  qed
  from b l c w show ?thesis
    unfolding Let_def affected_def failed_def backends_def additions_def by blast
qed

text \<open>
  Witness for C8: backends \<open>a\<close> and \<open>b\<close> leave, \<open>d\<close> joins; query \<open>(1, 1)\<close> ran on \<open>a\<close> and
  \<open>b\<close>, query \<open>(1, 2)\<close> on \<open>a\<close> and \<open>c\<close>. Each gets one cancel item naming its failed hosts, and
  only the location \<open>c\<close> stays. With 65535 items already queued nothing is offered.
\<close>

theorem MembershipCallback_cancels_witness:
  "MembershipCallback hostname (\<lambda>v. Some (example_address v)) (Some example_delta) 7
     example_locations_server
   = (example_locations_server\<lparr>known_backends :=
         [(''idc'', example_address ''c''), (''idd'', example_address ''d'')],
        query_locations := [(example_address ''c'', [(1, 2)])]\<rparr>,
      [example_address ''a'', example_address ''b''],
      [\<lparr>work_query_id = (1, 1),
        cause = Error [''Cancelled due to unreachable impalad(s): a, b''], unregister = False\<rparr>,
       \<lparr>work_query_id = (1, 2),
        cause = Error [''Cancelled due to unreachable impalad(s): a''], unregister = False\<rparr>])
   \<and> distinct (map fst (known_backends example_locations_server))
   \<and> distinct (map work_query_id (snd (snd (MembershipCallback hostname
         (\<lambda>v. Some (example_address v)) (Some example_delta) 7 example_locations_server))))
   \<and> snd (snd (MembershipCallback hostname (\<lambda>v. Some (example_address v)) (Some example_delta)
         65535 example_locations_server)) = []"
proof -
  let ?s' = "example_locations_server\<lparr>known_backends :=
         [(''idc'', example_address ''c''), (''idd'', example_address ''d'')],
        query_locations := [(example_address ''c'', [(1, 2)])]\<rparr>"
  let ?w = "[\<lparr>work_query_id = (1, 1),
        cause = Error [''Cancelled due to unreachable impalad(s): a, b''], unregister = False\<rparr>,
       \<lparr>work_query_id = (1, 2),
        cause = Error [''Cancelled due to unreachable impalad(s): a''], unregister = False\<rparr>]"
  have d: "\<forall>e \<in> set (query_locations example_locations_server). distinct (snd e)"
    by (simp add: example_locations_server_def)
  have k: "distinct (map fst (known_backends example_locations_server))"
    by (simp add: example_locations_server_def)
  have a: "MembershipCallback hostname (\<lambda>v. Some (example_address v)) (Some example_delta) 7
     example_locations_server = (?s', [example_address ''a'', example_address ''b''], ?w)"
    by (simp add: MembershipCallback_def example_locations_server_def example_delta_def
          example_address_def backend_insert_def backend_erase_def
          MAX_CANCELLATION_QUEUE_SIZE_def Status_msg_def Let_def del: set_filter)
  have b: "MembershipCallback hostname (\<lambda>v. Some (example_address v)) (Some example_delta) 65535
     example_locations_server = (?s', [example_address ''a'', example_address ''b''], [])"
    by (simp add: MembershipCallback_def example_locations_server_def example_delta_def
          example_address_def backend_insert_def backend_erase_def
          MAX_CANCELLATION_QUEUE_SIZE_def Status_msg_def Let_def del: set_filter)
  from MembershipCallback_cancels [OF a d k, unfolded Let_def, THEN conjunct2, THEN conjunct2,
      THEN conjunct2]
  have "distinct (map work_query_id ?w)"
    by (simp split: if_splits)
  with a b k show ?thesis by simp
qed

subsection \<open>Proxy users\<close>

lemma first_separator:
  "min_pos (find_char s a) (find_char s b) =
     (if a \<in> set s \<or> b \<in> set s
      then Some (length (takeWhile (\<lambda>c. c \<noteq> a \<and> c \<noteq> b) s)) else None)"
proof (induction s)
  case Nil
  then show ?case by (simp add: find_char_def)
next
  case (Cons x s)
  then show ?case
    by (cases "a \<in> set s"; cases "b \<in> set s") (auto simp: find_char_def split: if_splits)
qed

lemma short_user_code:
  "(case min_pos (find_char user CHR ''/'') (find_char user CHR ''@'') of
      None \<Rightarrow> user
    | Some i \<Rightarrow> if i = 0 then user else take i user)
   = (if spec_short_form user = [] then user else spec_short_form user)"
proof (cases "CHR ''/'' \<in> set user \<or> CHR ''@'' \<in> set user")
  case True
  then show ?thesis
    unfolding first_separator spec_short_form_def
    by (simp add: takeWhile_eq_take [symmetric])
next
  case False
  then have "takeWhile (\<lambda>c. c \<noteq> CHR ''/'' \<and> c \<noteq> CHR ''@'') user = user"
    by (auto simp: takeWhile_eq_all_conv)
  then have tw: "spec_short_form user = user"
    by (simp only: spec_short_form_def)
  have "min_pos (find_char user CHR ''/'') (find_char user CHR ''@'') = None"
    using False by (simp add: first_separator)
  then show ?thesis
    by (simp only: tw option.case if_cancel)
qed

lemma AuthorizeProxyUser_OK_iff:
  "AuthorizeProxyUser config user do_as_user = OK \<longleftrightarrow>
     user \<noteq> [] \<and> config \<noteq> [] \<and>
     (\<exists>allowed. map_of config (if spec_short_form user = [] then user else spec_short_form user)
                  = Some allowed \<and>
                (do_as_user \<in> set allowed \<or> ''*'' \<in> set allowed))"
  unfolding AuthorizeProxyUser_def Let_def short_user_code
  by (auto simp: Status_msg_def split: option.splits)

lemma AuthorizeProxyUser_textual:
  "AuthorizeProxyUser config user do_as_user = OK \<or>
   (\<exists>msg. AuthorizeProxyUser config user do_as_user = Error [msg])"
  unfolding AuthorizeProxyUser_def Let_def
  by (simp add: Status_msg_def split: option.splits)

text \<open>
  Claim C5, as the code has it. \<open>AuthorizeProxyUser(user, do_as_user)\<close> returns \<open>OK\<close> exactly
  when \<open>user\<close> is not empty, the proxy configuration is not empty, and the short form of
  \<open>user\<close> is a key of the configuration whose allowed users contain \<open>do_as_user\<close> or \<open>*\<close>;
  the short form is the substring up to the first \<open>/\<close> or \<open>@\<close>, or the whole principal if
  neither appears or if that substring is empty. Every other result is an error with one
  message. With the flag \<open>root=alice,bob;svc=*\<close> the configuration has the keys \<open>root\<close> and
  \<open>svc\<close>, and \<open>root@EXAMPLE\<close> may act as \<open>alice\<close>, \<open>root/host@EXAMPLE\<close> may not act as
  \<open>carol\<close>, and \<open>svc\<close> may act as \<open>anyone\<close>.
\<close>

theorem AuthorizeProxyUser_permits:
  "(AuthorizeProxyUser config user do_as_user = OK) =
     (user \<noteq> [] \<and> config \<noteq> [] \<and>
      (\<exists>allowed. map_of config (if spec_short_form user = [] then user
                                 else spec_short_form user) = Some allowed \<and>
                 (do_as_user \<in> set allowed \<or> ''*'' \<in> set allowed)))
   \<and> (AuthorizeProxyUser config user do_as_user = OK \<or>
        (\<exists>msg. AuthorizeProxyUser config user do_as_user = Error [msg]))
   \<and> AuthorizeProxyUser [] user do_as_user \<noteq> OK
   \<and> AuthorizeProxyUser config [] do_as_user \<noteq> OK
   \<and> parse_proxy_user_config ''root=alice,bob;svc=*''
        = Some [(''root'', [''alice'', ''bob'']), (''svc'', [''*''])]
   \<and> AuthorizeProxyUser [(''root'', [''alice'', ''bob'']), (''svc'', [''*''])]
        ''root@EXAMPLE'' ''alice'' = OK
   \<and> AuthorizeProxyUser [(''root'', [''alice'', ''bob'']), (''svc'', [''*''])]
        ''root/host@EXAMPLE'' ''carol'' \<noteq> OK
   \<and> AuthorizeProxyUser [(''root'', [''alice'', ''bob'']), (''svc'', [''*''])]
        ''svc'' ''anyone'' = OK"
proof (intro conjI)
  show "(AuthorizeProxyUser config user do_as_user = OK) =
     (user \<noteq> [] \<and> config \<noteq> [] \<and>
      (\<exists>allowed. map_of config (if spec_short_form user = [] then user
                                 else spec_short_form user) = Some allowed \<and>
                 (do_as_user \<in> set allowed \<or> ''*'' \<in> set allowed)))"
    by (rule AuthorizeProxyUser_OK_iff)
  show "AuthorizeProxyUser config user do_as_user = OK \<or>
        (\<exists>msg. AuthorizeProxyUser config user do_as_user = Error [msg])"
    by (rule AuthorizeProxyUser_textual)
  show "AuthorizeProxyUser [] user do_as_user \<noteq> OK"
    by (simp add: AuthorizeProxyUser_OK_iff)
  show "AuthorizeProxyUser config [] do_as_user \<noteq> OK"
    by (simp add: AuthorizeProxyUser_OK_iff)
  show "parse_proxy_user_config ''root=alice,bob;svc=*''
        = Some [(''root'', [''alice'', ''bob'']), (''svc'', [''*''])]"
    by (simp add: parse_proxy_user_config_def boost_split_def find_char_def Let_def)
  show "AuthorizeProxyUser [(''root'', [''alice'', ''bob'']), (''svc'', [''*''])]
        ''root@EXAMPLE'' ''alice'' = OK"
    by (simp add: AuthorizeProxyUser_OK_iff spec_short_form_def)
  show "AuthorizeProxyUser [(''root'', [''alice'', ''bob'']), (''svc'', [''*''])]
        ''root/host@EXAMPLE'' ''carol'' \<noteq> OK"
    by (simp add: AuthorizeProxyUser_OK_iff spec_short_form_def)
  show "AuthorizeProxyUser [(''root'', [''alice'', ''bob'']), (''svc'', [''*''])]
        ''svc'' ''anyone'' = OK"
    by (simp add: AuthorizeProxyUser_OK_iff spec_short_form_def)
qed

text \<open>
  Counterexample to C5 as stated. The principal \<open>@x\<close> has the empty substring before its
  first \<open>@\<close>, which is not a key of the configuration of the flag \<open>@x=*\<close>, yet the delegation
  is permitted: the code takes the whole principal there. And the flag
  \<open>root=alice,bob; svc=*\<close>, with a space after the semicolon, gives the key \<open> svc\<close> (pieces are
  not trimmed), so \<open>svc\<close> is refused.
\<close>

theorem AuthorizeProxyUser_short_form_counterexample:
  "AuthorizeProxyUser [(''@x'', [''*''])] ''@x'' ''y'' = OK
   \<and> map_of [(''@x'', [''*''])] (spec_short_form ''@x'') = None
   \<and> parse_proxy_user_config ''@x=*'' = Some [(''@x'', [''*''])]
   \<and> parse_proxy_user_config ''root=alice,bob; svc=*''
        = Some [(''root'', [''alice'', ''bob'']), ('' svc'', [''*''])]
   \<and> AuthorizeProxyUser [(''root'', [''alice'', ''bob'']), ('' svc'', [''*''])]
        ''svc'' ''anyone'' \<noteq> OK"
  by (simp add: AuthorizeProxyUser_def spec_short_form_def parse_proxy_user_config_def
        boost_split_def find_char_def Let_def Status_msg_def)

subsection \<open>Round trip of the query options\<close>

lemma TQueryOptionsToMap_sorted:
  "TQueryOptionsToMap pc pl q =
     [(''ABORT_ON_DEFAULT_LIMIT_EXCEEDED'', print_bool (abort_on_default_limit_exceeded q)),
      (''ABORT_ON_ERROR'', print_bool (abort_on_error q)),
      (''ALLOW_UNSUPPORTED_FORMATS'', print_bool (allow_unsupported_formats q)),
      (''BATCH_SIZE'', print_int (batch_size q)),
      (''COMPRESSION_CODEC'', pc (compression_codec q)),
      (''DEBUG_ACTION'', debug_action q),
      (''DEFAULT_ORDER_BY_LIMIT'', print_int (default_order_by_limit q)),
      (''DISABLE_CACHED_READS'', print_bool (disable_cached_reads q)),
      (''DISABLE_CODEGEN'', print_bool (disable_codegen q)),
      (''DISABLE_OUTERMOST_TOPN'', print_bool (disable_outermost_topn q)),
      (''EXPLAIN_LEVEL'', pl (explain_level q)),
      (''HBASE_CACHE_BLOCKS'', print_bool (hbase_cache_blocks q)),
      (''HBASE_CACHING'', print_int (hbase_caching q)),
      (''MAX_BLOCK_MGR_MEMORY'', print_int (max_block_mgr_memory q)),
      (''MAX_ERRORS'', print_int (max_errors q)),
      (''MAX_IO_BUFFERS'', print_int (max_io_buffers q)),
      (''MAX_SCAN_RANGE_LENGTH'', print_int (max_scan_range_length q)),
      (''MEM_LIMIT'', print_int (mem_limit q)),
      (''NUM_NODES'', print_int (num_nodes q)),
      (''NUM_SCANNER_THREADS'', print_int (num_scanner_threads q)),
      (''PARQUET_FILE_SIZE'', print_int (parquet_file_size q)),
      (''QUERY_TIMEOUT_S'', print_int (opt_query_timeout_s q)),
      (''REQUEST_POOL'', request_pool q),
      (''RESERVATION_REQUEST_TIMEOUT'', print_int (reservation_request_timeout q)),
      (''RM_INITIAL_MEM'', print_int (rm_initial_mem q)),
      (''SYNC_DDL'', print_bool (sync_ddl q)),
      (''V_CPU_CORES'', print_int (v_cpu_cores q))]"
  by (simp add: TQueryOptionsToMap_def TImpalaQueryOptions_VALUES_TO_NAMES_def option_value_def)

lemma split_compress_nonempty: "split_compress p r s \<noteq> []"
  by (induction s arbitrary: r) (auto split: list.splits)

lemma split_compress_token:
  "\<forall>c \<in> set t. \<not> p c \<Longrightarrow> t \<noteq> [] \<Longrightarrow>
     split_compress p r (t @ u) =
       (t @ hd (split_compress p False u)) # tl (split_compress p False u)"
proof (induction t arbitrary: r)
  case Nil
  then show ?case by simp
next
  case (Cons c t)
  show ?case
  proof (cases "t = []")
    case True
    with Cons.prems split_compress_nonempty [of p False u] show ?thesis
      by (cases "split_compress p False u") simp_all
  next
    case False
    with Cons.IH [of False] Cons.prems show ?thesis by simp
  qed
qed

lemma split_compress_single:
  "\<forall>c \<in> set t. \<not> p c \<Longrightarrow> split_compress p r t = [t]"
proof (cases "t = []")
  case True
  then show ?thesis by simp
next
  case False
  assume "\<forall>c \<in> set t. \<not> p c"
  from split_compress_token [OF this False, of r "[]"] show ?thesis by simp
qed

lemma split_compress_after_sep:
  "\<not> p c \<Longrightarrow> split_compress p True (c # cs) = split_compress p False (c # cs)"
  by simp

lemma split_join:
  assumes "p s" and "ts \<noteq> []" and "\<forall>t \<in> set ts. t \<noteq> [] \<and> (\<forall>c \<in> set t. \<not> p c)"
  shows "split_compress p False (join ts [s]) = ts"
  using assms(2,3)
proof (induction ts)
  case Nil
  then show ?case by simp
next
  case (Cons x ts)
  from Cons.prems have x: "x \<noteq> []" "\<forall>c \<in> set x. \<not> p c" by simp_all
  show ?case
  proof (cases ts)
    case Nil
    with x show ?thesis by (simp add: split_compress_single)
  next
    case (Cons y ys)
    with Cons.prems have rest: "\<forall>t \<in> set ts. t \<noteq> [] \<and> (\<forall>c \<in> set t. \<not> p c)" and ne: "ts \<noteq> []"
      by simp_all
    from Cons.IH [OF ne rest] have ih: "split_compress p False (join ts [s]) = ts" .
    from rest Cons have y: "y \<noteq> []" "\<forall>c \<in> set y. \<not> p c" by simp_all
    then obtain c cs' where yc: "y = c # cs'" by (cases y) auto
    with y have c: "\<not> p c" by simp
    obtain cs where j: "join ts [s] = c # cs"
      using Cons yc by (cases ys) simp_all
    have "split_compress p False (s # join ts [s]) = [] # ts"
      using assms(1) ih c unfolding j by simp
    with split_compress_token [OF x(2) x(1), of False "s # join ts [s]"] Cons
    show ?thesis by simp
  qed
qed

lemma boost_split_key_value:
  assumes "K \<noteq> []" and "CHR ''='' \<notin> set K" and "CHR ''='' \<notin> set V"
  shows "boost_split (K @ ''='' @ V) ''='' = [K, V]"
proof -
  have k: "\<forall>c \<in> set K. \<not> (c \<in> set ''='')" using assms(2) by auto
  have v: "\<forall>c \<in> set V. \<not> (c \<in> set ''='')" using assms(3) by auto
  have "split_compress (\<lambda>c. c \<in> set ''='') True V = [V]"
    using v by (rule split_compress_single)
  then have "split_compress (\<lambda>c. c \<in> set ''='') False (''='' @ V) = [[], V]"
    by simp
  with split_compress_token [OF k assms(1), of False "''='' @ V"] show ?thesis
    by (simp add: boost_split_def)
qed

lemma trim_id:
  assumes "s \<noteq> []" and "\<not> isspace (hd s)" and "\<not> isspace (last s)"
  shows "trim s = s"
proof -
  from assms(1,2) have a: "dropWhile isspace s = s" by (cases s) simp_all
  from assms(1,3) have "dropWhile isspace (rev s) = rev s"
    by (cases "rev s") (simp_all add: last_rev [symmetric] hd_rev)
  with a show ?thesis by (simp add: trim_def)
qed


lemma of_char_digit_char: "d < 10 \<Longrightarrow> (of_char (digit_char d) :: nat) = 48 + d"
  by (simp add: digit_char_def)

lemma is_digit_digit_char: "d < 10 \<Longrightarrow> is_digit (digit_char d)"
  by (simp add: is_digit_def of_char_digit_char)

lemma print_nat_digits: "\<forall>c \<in> set (print_nat n). is_digit c"
proof (induction n rule: print_nat.induct)
  case (1 n)
  show ?case
  proof (cases "n < 10")
    case True
    then show ?thesis by (subst print_nat.simps) (simp add: is_digit_digit_char)
  next
    case False
    with 1 show ?thesis
      by (subst print_nat.simps) (simp add: is_digit_digit_char)
  qed
qed

lemma print_nat_nonempty: "print_nat n \<noteq> []"
  by (subst print_nat.simps) (simp)

lemma parse_digits_append:
  "\<forall>c \<in> set xs. is_digit c \<Longrightarrow> parse_digits a (xs @ ys) = parse_digits (parse_digits a xs) ys"
  by (induction xs arbitrary: a) simp_all

lemma parse_digits_print_nat: "parse_digits 0 (print_nat n) = int n"
proof (induction n rule: print_nat.induct)
  case (1 n)
  show ?case
  proof (cases "n < 10")
    case True
    then show ?thesis
      by (subst print_nat.simps) (simp add: is_digit_digit_char of_char_digit_char)
  next
    case False
    have "parse_digits 0 (print_nat n)
            = parse_digits 0 (print_nat (n div 10) @ [digit_char (n mod 10)])"
      using False by (subst print_nat.simps) (simp)
    also have "\<dots> = parse_digits (parse_digits 0 (print_nat (n div 10))) [digit_char (n mod 10)]"
      by (rule parse_digits_append) (rule print_nat_digits)
    also have "\<dots> = int (n div 10) * 10 + int (n mod 10)"
      using 1 [OF False] by (simp add: is_digit_digit_char of_char_digit_char)
    also have "\<dots> = int n" by presburger
    finally show ?thesis .
  qed
qed

lemma is_digit_chars:
  "is_digit c \<Longrightarrow> c \<noteq> CHR '','' \<and> c \<noteq> CHR ''='' \<and> c \<noteq> CHR ''-'' \<and> c \<noteq> CHR ''+'' \<and> \<not> isspace c"
  by (auto simp: is_digit_def isspace_def)

lemma atol_print_int:
  assumes "- (2 ^ 63) \<le> n" and "n < 2 ^ 63"
  shows "atol (print_int n) = n"
proof -
  obtain c cs where p: "print_nat (nat \<bar>n\<bar>) = c # cs"
    using print_nat_nonempty [of "nat \<bar>n\<bar>"] by (cases "print_nat (nat \<bar>n\<bar>)") auto
  with print_nat_digits [of "nat \<bar>n\<bar>"] have d: "is_digit c" by simp
  note dc = is_digit_chars [OF d]
  have v: "parse_digits 0 (c # cs) = \<bar>n\<bar>"
    using parse_digits_print_nat [of "nat \<bar>n\<bar>"] p by simp
  show ?thesis
  proof (cases "n < 0")
    case True
    then have "print_int n = CHR ''-'' # c # cs"
      using p by (simp add: print_int_def)
    with v True assms show ?thesis
      by (simp add: atol_def isspace_def Let_def del: parse_digits.simps)
  next
    case False
    then have "print_int n = c # cs"
      using p by (simp add: print_int_def)
    with v False assms dc show ?thesis
      by (simp add: atol_def Let_def del: parse_digits.simps)
  qed
qed

lemma atoi_print_int:
  assumes "- (2 ^ 31) \<le> n" and "n < 2 ^ 31"
  shows "atoi (print_int n) = n"
proof -
  from assms have "atol (print_int n) = n" by (intro atol_print_int) simp_all
  with assms show ?thesis by (simp add: atoi_def)
qed

lemma clean_value_print_int: "clean_value (print_int n)"
proof -
  have d: "\<forall>c \<in> set (print_nat m). c \<noteq> CHR '','' \<and> c \<noteq> CHR ''='' \<and> \<not> isspace c" for m
    using print_nat_digits [of m] is_digit_chars by blast
  have l: "case rev (print_nat m) of [] \<Rightarrow> True | c # cs \<Rightarrow> \<not> isspace c" for m
  proof (cases "rev (print_nat m)")
    case Nil
    then show ?thesis by simp
  next
    case (Cons c cs)
    then have "c \<in> set (print_nat m)" by (metis list.set_intros(1) set_rev)
    with d [of m] have "\<not> isspace c" by blast
    then show ?thesis unfolding Cons by simp
  qed
  show ?thesis
  proof (cases "n < 0")
    case True
    have "rev (print_nat (nat (- n))) \<noteq> []" using print_nat_nonempty by simp
    then obtain c cs where r: "rev (print_nat (nat (- n))) = c # cs"
      by (cases "rev (print_nat (nat (- n)))") auto
    with True d [of "nat (- n)"] l [of "nat (- n)"] show ?thesis
      by (auto simp: clean_value_def print_int_def)
  next
    case False
    with d [of "nat n"] l [of "nat n"] show ?thesis
      by (auto simp: clean_value_def print_int_def)
  qed
qed

lemma clean_value_print_bool: "clean_value (print_bool b)"
  by (simp add: clean_value_def print_bool_def isspace_def)

lemma iequals_true_print_bool: "iequals_true (print_bool b) = b"
  by (simp add: iequals_true_def iequals_def print_bool_def to_upper_def)

lemma GetQueryOption_names:
  "GetQueryOption ''ABORT_ON_DEFAULT_LIMIT_EXCEEDED'' = Some ABORT_ON_DEFAULT_LIMIT_EXCEEDED"
  "GetQueryOption ''ABORT_ON_ERROR'' = Some ABORT_ON_ERROR"
  "GetQueryOption ''ALLOW_UNSUPPORTED_FORMATS'' = Some ALLOW_UNSUPPORTED_FORMATS"
  "GetQueryOption ''BATCH_SIZE'' = Some BATCH_SIZE"
  "GetQueryOption ''COMPRESSION_CODEC'' = Some COMPRESSION_CODEC"
  "GetQueryOption ''DEBUG_ACTION'' = Some DEBUG_ACTION"
  "GetQueryOption ''DEFAULT_ORDER_BY_LIMIT'' = Some DEFAULT_ORDER_BY_LIMIT"
  "GetQueryOption ''DISABLE_CACHED_READS'' = Some DISABLE_CACHED_READS"
  "GetQueryOption ''DISABLE_CODEGEN'' = Some DISABLE_CODEGEN"
  "GetQueryOption ''DISABLE_OUTERMOST_TOPN'' = Some DISABLE_OUTERMOST_TOPN"
  "GetQueryOption ''EXPLAIN_LEVEL'' = Some EXPLAIN_LEVEL"
  "GetQueryOption ''HBASE_CACHE_BLOCKS'' = Some HBASE_CACHE_BLOCKS"
  "GetQueryOption ''HBASE_CACHING'' = Some HBASE_CACHING"
  "GetQueryOption ''MAX_BLOCK_MGR_MEMORY'' = Some MAX_BLOCK_MGR_MEMORY"
  "GetQueryOption ''MAX_ERRORS'' = Some MAX_ERRORS"
  "GetQueryOption ''MAX_IO_BUFFERS'' = Some MAX_IO_BUFFERS"
  "GetQueryOption ''MAX_SCAN_RANGE_LENGTH'' = Some MAX_SCAN_RANGE_LENGTH"
  "GetQueryOption ''MEM_LIMIT'' = Some MEM_LIMIT"
  "GetQueryOption ''NUM_NODES'' = Some NUM_NODES"
  "GetQueryOption ''NUM_SCANNER_THREADS'' = Some NUM_SCANNER_THREADS"
  "GetQueryOption ''PARQUET_FILE_SIZE'' = Some PARQUET_FILE_SIZE"
  "GetQueryOption ''QUERY_TIMEOUT_S'' = Some QUERY_TIMEOUT_S"
  "GetQueryOption ''REQUEST_POOL'' = Some REQUEST_POOL"
  "GetQueryOption ''RESERVATION_REQUEST_TIMEOUT'' = Some RESERVATION_REQUEST_TIMEOUT"
  "GetQueryOption ''RM_INITIAL_MEM'' = Some RM_INITIAL_MEM"
  "GetQueryOption ''SYNC_DDL'' = Some SYNC_DDL"
  "GetQueryOption ''V_CPU_CORES'' = Some V_CPU_CORES"
  by (simp_all add: GetQueryOption_def TImpalaQueryOptions_VALUES_TO_NAMES_def iequals_def
        to_upper_def)

lemma c_str_id: "CHR 0x00 \<notin> set v \<Longrightarrow> c_str v = v"
  by (auto simp: c_str_def takeWhile_eq_all_conv)

lemma c_str_print_int: "c_str (print_int n) = print_int n"
proof -
  have d: "CHR 0x00 \<notin> set (print_nat m)" for m
    using print_nat_digits [of m] by (auto simp: is_digit_def)
  show ?thesis
    by (rule c_str_id) (simp add: print_int_def d)
qed

lemma SetQueryOptions_plain:
  "SetQueryOptions P ''ABORT_ON_DEFAULT_LIMIT_EXCEEDED'' v q
     = (OK, q\<lparr>abort_on_default_limit_exceeded := iequals_true v\<rparr>)"
  "SetQueryOptions P ''ABORT_ON_ERROR'' v q = (OK, q\<lparr>abort_on_error := iequals_true v\<rparr>)"
  "SetQueryOptions P ''ALLOW_UNSUPPORTED_FORMATS'' v q
     = (OK, q\<lparr>allow_unsupported_formats := iequals_true v\<rparr>)"
  "SetQueryOptions P ''BATCH_SIZE'' v q = (OK, q\<lparr>batch_size := atoi (c_str v)\<rparr>)"
  "SetQueryOptions P ''DEBUG_ACTION'' v q = (OK, q\<lparr>debug_action := c_str v\<rparr>)"
  "SetQueryOptions P ''DEFAULT_ORDER_BY_LIMIT'' v q = (OK, q\<lparr>default_order_by_limit := atoi (c_str v)\<rparr>)"
  "SetQueryOptions P ''DISABLE_CACHED_READS'' v q
     = (OK, q\<lparr>disable_cached_reads := iequals_true v\<rparr>)"
  "SetQueryOptions P ''DISABLE_CODEGEN'' v q = (OK, q\<lparr>disable_codegen := iequals_true v\<rparr>)"
  "SetQueryOptions P ''DISABLE_OUTERMOST_TOPN'' v q
     = (OK, q\<lparr>disable_outermost_topn := iequals_true v\<rparr>)"
  "SetQueryOptions P ''HBASE_CACHE_BLOCKS'' v q = (OK, q\<lparr>hbase_cache_blocks := iequals_true v\<rparr>)"
  "SetQueryOptions P ''HBASE_CACHING'' v q = (OK, q\<lparr>hbase_caching := atoi (c_str v)\<rparr>)"
  "SetQueryOptions P ''MAX_ERRORS'' v q = (OK, q\<lparr>max_errors := atoi (c_str v)\<rparr>)"
  "SetQueryOptions P ''MAX_IO_BUFFERS'' v q = (OK, q\<lparr>max_io_buffers := atoi (c_str v)\<rparr>)"
  "SetQueryOptions P ''MAX_SCAN_RANGE_LENGTH'' v q = (OK, q\<lparr>max_scan_range_length := atol (c_str v)\<rparr>)"
  "SetQueryOptions P ''NUM_NODES'' v q = (OK, q\<lparr>num_nodes := atoi (c_str v)\<rparr>)"
  "SetQueryOptions P ''NUM_SCANNER_THREADS'' v q = (OK, q\<lparr>num_scanner_threads := atoi (c_str v)\<rparr>)"
  "SetQueryOptions P ''QUERY_TIMEOUT_S'' v q = (OK, q\<lparr>opt_query_timeout_s := atoi (c_str v)\<rparr>)"
  "SetQueryOptions P ''REQUEST_POOL'' v q = (OK, q\<lparr>request_pool := v\<rparr>)"
  "SetQueryOptions P ''RESERVATION_REQUEST_TIMEOUT'' v q
     = (OK, q\<lparr>reservation_request_timeout := atoi (c_str v)\<rparr>)"
  "SetQueryOptions P ''SYNC_DDL'' v q = (OK, q\<lparr>sync_ddl := iequals_true v\<rparr>)"
  "SetQueryOptions P ''V_CPU_CORES'' v q = (OK, q\<lparr>v_cpu_cores := atoi (c_str v)\<rparr>)"
  by (simp_all add: SetQueryOptions_def GetQueryOption_names)

lemma SetQueryOptions_mem:
  assumes "P v = (n, False)" and "0 \<le> n"
  shows "SetQueryOptions P ''MEM_LIMIT'' v q = (OK, q\<lparr>mem_limit := n\<rparr>)"
    and "SetQueryOptions P ''PARQUET_FILE_SIZE'' v q = (OK, q\<lparr>parquet_file_size := n\<rparr>)"
    and "SetQueryOptions P ''RM_INITIAL_MEM'' v q = (OK, q\<lparr>rm_initial_mem := n\<rparr>)"
    and "SetQueryOptions P ''MAX_BLOCK_MGR_MEMORY'' v q = (OK, q\<lparr>max_block_mgr_memory := n\<rparr>)"
  using assms
  by (simp_all add: SetQueryOptions_def GetQueryOption_names ParseMemValue_def)

lemma clean_value_parts:
  assumes "clean_value v"
  shows "CHR '','' \<notin> set v" and "CHR ''='' \<notin> set v" and "v \<noteq> [] \<Longrightarrow> \<not> isspace (last v)"
proof -
  from assms show "CHR '','' \<notin> set v" and "CHR ''='' \<notin> set v"
    by (simp_all add: clean_value_def)
  assume "v \<noteq> []"
  then obtain c cs where r: "rev v = c # cs" by (cases "rev v") auto
  then have "last v = c" by (metis last_rev list.sel(1) rev_rev_ident)
  with assms r show "\<not> isspace (last v)" by (simp add: clean_value_def)
qed

lemma ParseQueryOptions_loop_kv:
  assumes "K \<noteq> []" and "\<not> isspace (hd K)" and "CHR ''='' \<notin> set K" and "clean_value V"
  shows "ParseQueryOptions_loop P ((K @ CHR ''='' # V) # rest) q =
           (case SetQueryOptions P K V q of
              (Error msgs, q') \<Rightarrow> (Error msgs, q')
            | (OK, q') \<Rightarrow> ParseQueryOptions_loop P rest q')"
proof -
  have last: "\<not> isspace (last (K @ CHR ''='' # V))"
  proof (cases "V = []")
    case True
    then show ?thesis by (simp add: isspace_def)
  next
    case False
    with clean_value_parts(3) [OF assms(4)] show ?thesis by simp
  qed
  have hd: "\<not> isspace (hd (K @ CHR ''='' # V))" using assms(1,2) by simp
  have t: "trim (K @ CHR ''='' # V) = K @ CHR ''='' # V"
    using hd last by (intro trim_id) simp_all
  have s: "boost_split (K @ CHR ''='' # V) ''='' = [K, V]"
    using boost_split_key_value [OF assms(1,3) clean_value_parts(2) [OF assms(4)]] by simp
  have ne: "K @ CHR ''='' # V \<noteq> []" by simp
  show ?thesis
    by (subst ParseQueryOptions_loop.simps)
       (simp only: t s Let_def ne length_0_conv if_False list.case)
qed

lemma fold_set_error:
  "fold (\<lambda>e r. case r of (OK, q) \<Rightarrow> SetQueryOptions P (fst e) (snd e) q
                  | (Error msgs, q) \<Rightarrow> (Error msgs, q)) kvs (Error m, q') = (Error m, q')"
  by (induction kvs) simp_all

lemma ParseQueryOptions_loop_fold:
  assumes "\<forall>e \<in> set kvs. fst e \<noteq> [] \<and> \<not> isspace (hd (fst e)) \<and> CHR ''='' \<notin> set (fst e) \<and>
             clean_value (snd e)"
  shows "ParseQueryOptions_loop P (map (\<lambda>e. fst e @ CHR ''='' # snd e) kvs) q =
           fold (\<lambda>e r. case r of (OK, q) \<Rightarrow> SetQueryOptions P (fst e) (snd e) q
                        | (Error msgs, q) \<Rightarrow> (Error msgs, q)) kvs (OK, q)"
  using assms
proof (induction kvs arbitrary: q)
  case Nil
  then show ?case by simp
next
  case (Cons e kvs)
  from Cons.prems have e: "fst e \<noteq> []" "\<not> isspace (hd (fst e))" "CHR ''='' \<notin> set (fst e)"
      "clean_value (snd e)"
    and rest: "\<forall>e \<in> set kvs. fst e \<noteq> [] \<and> \<not> isspace (hd (fst e)) \<and> CHR ''='' \<notin> set (fst e) \<and>
             clean_value (snd e)"
    by simp_all
  obtain st q' where s: "SetQueryOptions P (fst e) (snd e) q = (st, q')"
    by (cases "SetQueryOptions P (fst e) (snd e) q") auto
  show ?case
  proof (cases st)
    case OK
    with s Cons.IH [OF rest, of q'] ParseQueryOptions_loop_kv [OF e, of P _ q] show ?thesis
      by simp
  next
    case (Error m)
    with s ParseQueryOptions_loop_kv [OF e, of P _ q] show ?thesis
      by (simp add: fold_set_error)
  qed
qed

lemma join_nonempty: "ts \<noteq> [] \<Longrightarrow> hd ts \<noteq> [] \<Longrightarrow> join ts sep \<noteq> []"
proof -
  assume "ts \<noteq> []" and h: "hd ts \<noteq> []"
  then obtain x xs where ts: "ts = x # xs" by (cases ts) auto
  with h show ?thesis by (cases xs) simp_all
qed

lemma boost_split_join:
  assumes "ts \<noteq> []" and "\<forall>t \<in> set ts. t \<noteq> [] \<and> s \<notin> set t"
  shows "boost_split (join ts [s]) [s] = ts"
proof -
  from assms(2) have "\<forall>t \<in> set ts. t \<noteq> [] \<and> (\<forall>c \<in> set t. \<not> c \<in> set [s])"
    by auto
  from split_join [OF _ assms(1) this, of s] show ?thesis
    by (simp add: boost_split_def)
qed

text \<open>
  Claim C9. Writing the options with \<open>TQueryOptionsToMap\<close> as \<open>key=value\<close> pairs joined by
  commas and reading the text back with \<open>ParseQueryOptions\<close> returns \<open>OK\<close> and the options
  that were written, whatever the options the parsing starts from, for the options that
  the text can carry (\<open>representable\<close>: integers within the range of \<open>atoi\<close> and \<open>atol\<close>,
  memory sizes not negative, no comma, equals sign or trailing white space in
  \<open>debug_action\<close> and \<open>request_pool\<close>, no NUL in \<open>debug_action\<close>) and for a \<open>ParseMemSpec\<close>
  and printers of the two enumerations that read these options back (\<open>reads_back\<close>).
\<close>

theorem ParseQueryOptions_ToString:
  assumes rep: "representable q" and rb: "reads_back P pc pl q"
  shows "ParseQueryOptions P (ToString pc pl q) q0 = (OK, q)"
proof -
  let ?mk = "\<lambda>e :: string \<times> string. fst e @ CHR ''='' # snd e"
  let ?kvs = "TQueryOptionsToMap pc pl q"
  note rep' = rep [unfolded representable_def in_int32_def]
  note rb' = rb [unfolded reads_back_def]
  have cs: "clean_value (debug_action q)" "clean_value (request_pool q)"
      "clean_value (pc (compression_codec q))" "clean_value (pl (explain_level q))"
    using rep' rb' by simp_all
  note cv = cs clean_value_print_int clean_value_print_bool
  have keys: "\<forall>e \<in> set ?kvs. fst e \<noteq> [] \<and> \<not> isspace (hd (fst e)) \<and> CHR ''='' \<notin> set (fst e) \<and>
             clean_value (snd e)"
    unfolding TQueryOptionsToMap_sorted by (simp add: cv isspace_def)
  have toks: "\<forall>t \<in> set (map ?mk ?kvs). t \<noteq> [] \<and> CHR '','' \<notin> set t"
    unfolding TQueryOptionsToMap_sorted
    using cv [THEN clean_value_parts(1)] by simp
  have ne: "map ?mk ?kvs \<noteq> []"
    unfolding TQueryOptionsToMap_sorted by simp
  have sp: "boost_split (join (map ?mk ?kvs) '','') '','' = map ?mk ?kvs"
    by (rule boost_split_join [OF ne toks])
  have str: "ToString pc pl q = join (map ?mk ?kvs) '',''"
    by (simp add: ToString_def)
  have hdne: "hd (map ?mk ?kvs) \<noteq> []"
    unfolding TQueryOptionsToMap_sorted by simp
  have nonempty: "length (ToString pc pl q) \<noteq> 0"
    unfolding str using join_nonempty [OF ne hdne] by simp
  have mem: "SetQueryOptions P ''MEM_LIMIT'' (print_int (mem_limit q)) q1
               = (OK, q1\<lparr>mem_limit := mem_limit q\<rparr>)"
    "SetQueryOptions P ''PARQUET_FILE_SIZE'' (print_int (parquet_file_size q)) q1
               = (OK, q1\<lparr>parquet_file_size := parquet_file_size q\<rparr>)"
    "SetQueryOptions P ''RM_INITIAL_MEM'' (print_int (rm_initial_mem q)) q1
               = (OK, q1\<lparr>rm_initial_mem := rm_initial_mem q\<rparr>)"
    "SetQueryOptions P ''MAX_BLOCK_MGR_MEMORY'' (print_int (max_block_mgr_memory q)) q1
               = (OK, q1\<lparr>max_block_mgr_memory := max_block_mgr_memory q\<rparr>)" for q1
    using rep' rb' by (simp_all add: SetQueryOptions_mem)
  have enum: "SetQueryOptions P ''COMPRESSION_CODEC'' (pc (compression_codec q)) q1
               = (OK, q1\<lparr>compression_codec := compression_codec q\<rparr>)"
    "SetQueryOptions P ''EXPLAIN_LEVEL'' (pl (explain_level q)) q1
               = (OK, q1\<lparr>explain_level := explain_level q\<rparr>)" for q1
    using rb' by simp_all
  have nums: "atoi (c_str (print_int (max_errors q))) = max_errors q"
    "atoi (c_str (print_int (batch_size q))) = batch_size q"
    "atoi (c_str (print_int (num_nodes q))) = num_nodes q"
    "atoi (c_str (print_int (max_io_buffers q))) = max_io_buffers q"
    "atoi (c_str (print_int (num_scanner_threads q))) = num_scanner_threads q"
    "atoi (c_str (print_int (default_order_by_limit q))) = default_order_by_limit q"
    "atoi (c_str (print_int (hbase_caching q))) = hbase_caching q"
    "atoi (c_str (print_int (v_cpu_cores q))) = v_cpu_cores q"
    "atoi (c_str (print_int (reservation_request_timeout q))) = reservation_request_timeout q"
    "atoi (c_str (print_int (opt_query_timeout_s q))) = opt_query_timeout_s q"
    "atol (c_str (print_int (max_scan_range_length q))) = max_scan_range_length q"
    using rep' by (simp_all add: atoi_print_int atol_print_int c_str_print_int)
  have dbg: "c_str (debug_action q) = debug_action q"
    using rep' by (simp add: c_str_id)
  have "ParseQueryOptions P (ToString pc pl q) q0
          = ParseQueryOptions_loop P (map ?mk ?kvs) q0"
    using nonempty unfolding ParseQueryOptions_def str sp by simp
  also have "\<dots> = fold (\<lambda>e r. case r of (OK, q) \<Rightarrow> SetQueryOptions P (fst e) (snd e) q
                        | (Error msgs, q) \<Rightarrow> (Error msgs, q)) ?kvs (OK, q0)"
    by (rule ParseQueryOptions_loop_fold [OF keys])
  also have "\<dots> = (OK, q)"
    unfolding TQueryOptionsToMap_sorted
    by (simp add: SetQueryOptions_plain mem enum nums dbg iequals_true_print_bool)
  finally show ?thesis .
qed

lemma iequals_examples:
  "\<not> iequals ''SNAPPY'' ''none''" "\<not> iequals ''SNAPPY'' ''gzip''"
  "\<not> iequals ''SNAPPY'' ''bzip2''" "\<not> iequals ''SNAPPY'' ''default''"
  "iequals ''SNAPPY'' ''snappy''"
  "\<not> iequals ''1'' ''minimal''" "\<not> iequals ''1'' ''0''" "iequals ''1'' ''1''"
  by code_simp+

lemma example_representable: "representable example_options"
  by (simp add: representable_def in_int32_def example_options_def clean_value_def isspace_def)

lemma example_reads_back:
  "reads_back example_ParseMemSpec example_print_codec example_print_level example_options"
proof -
  have m: "example_ParseMemSpec (print_int n) = (n, False)" if "0 \<le> n" "n < 2 ^ 63" for n
    using that atol_print_int [of n] print_nat_nonempty [of "nat n"]
    by (simp add: example_ParseMemSpec_def print_int_def)
  show ?thesis
    unfolding reads_back_def
    by (simp add: m example_options_def clean_value_def isspace_def SetQueryOptions_def
          GetQueryOption_names iequals_examples)
qed

text \<open>
  Witness for C9: the options \<open>example_options\<close>, with the codec written by name and the
  explain level by number, are read back unchanged over options that differ in three
  fields.
\<close>

theorem ParseQueryOptions_ToString_witness:
  "representable example_options
   \<and> reads_back example_ParseMemSpec example_print_codec example_print_level example_options
   \<and> ParseQueryOptions example_ParseMemSpec
        (ToString example_print_codec example_print_level example_options)
        (example_options\<lparr>batch_size := 0, debug_action := ''x'', compression_codec := NONE\<rparr>)
      = (OK, example_options)"
  using ParseQueryOptions_ToString [OF example_representable example_reads_back]
    example_representable example_reads_back
  by simp

lemma ParseQueryOptions_loop_bad:
  assumes "\<forall>e \<in> set kvs. fst e \<noteq> [] \<and> \<not> isspace (hd (fst e)) \<and> CHR ''='' \<notin> set (fst e) \<and>
             clean_value (snd e)"
    and bad: "\<And>q. fst (ParseQueryOptions_loop P (bad # rest) q) \<noteq> OK"
  shows "fst (ParseQueryOptions_loop P (map (\<lambda>e. fst e @ CHR ''='' # snd e) kvs @ bad # rest) q)
           \<noteq> OK"
  using assms(1)
proof (induction kvs arbitrary: q)
  case Nil
  then show ?case using bad by simp
next
  case (Cons e kvs)
  from Cons.prems have e: "fst e \<noteq> []" "\<not> isspace (hd (fst e))" "CHR ''='' \<notin> set (fst e)"
      "clean_value (snd e)"
    and rest: "\<forall>e \<in> set kvs. fst e \<noteq> [] \<and> \<not> isspace (hd (fst e)) \<and> CHR ''='' \<notin> set (fst e) \<and>
             clean_value (snd e)"
    by simp_all
  obtain st q' where s: "SetQueryOptions P (fst e) (snd e) q = (st, q')"
    by (cases "SetQueryOptions P (fst e) (snd e) q") auto
  show ?case
  proof (cases st)
    case OK
    with s Cons.IH [OF rest, of q'] ParseQueryOptions_loop_kv [OF e, of P _ q] show ?thesis
      by simp
  next
    case (Error m)
    with s ParseQueryOptions_loop_kv [OF e, of P _ q] show ?thesis
      by simp
  qed
qed

lemma ParseQueryOptions_loop_three_pieces:
  "ParseQueryOptions_loop P (''DEBUG_ACTION=x=1'' # rest) q
     = (Status_msg (''Ignoring invalid configuration option DEBUG_ACTION=x=1'' @
               '': bad format (expected key=value)''), q)"
  by (simp add: trim_def isspace_def boost_split_def Let_def)

text \<open>
  Counterexample for C9 as stated (every options value is read back with \<open>OK\<close>): with
  \<open>debug_action = x=1\<close> the text holds the piece \<open>DEBUG_ACTION=x=1\<close>, which splits into three
  parts at the equals signs, and \<open>ParseQueryOptions\<close> returns an error.
\<close>

theorem ParseQueryOptions_ToString_counterexample:
  "fst (ParseQueryOptions example_ParseMemSpec
          (ToString example_print_codec example_print_level
             (example_options\<lparr>debug_action := ''x=1''\<rparr>))
          example_options) \<noteq> OK"
proof -
  let ?mk = "\<lambda>e :: string \<times> string. fst e @ CHR ''='' # snd e"
  define q where "q = example_options\<lparr>debug_action := ''x=1''\<rparr>"
  let ?pc = example_print_codec and ?pl = example_print_level
  let ?kvs = "TQueryOptionsToMap ?pc ?pl q"
  have vals: "debug_action q = ''x=1''" "request_pool q = ''root.default''"
    "?pc (compression_codec q) = ''SNAPPY''" "?pl (explain_level q) = ''1''"
    by (simp_all add: q_def example_options_def)
  have cs: "clean_value (request_pool q)"
      "clean_value (?pc (compression_codec q))" "clean_value (?pl (explain_level q))"
    unfolding vals by (simp_all add: clean_value_def isspace_def)
  note cv = cs clean_value_print_int clean_value_print_bool
  have toks: "\<forall>t \<in> set (map ?mk ?kvs). t \<noteq> [] \<and> CHR '','' \<notin> set t"
    unfolding TQueryOptionsToMap_sorted
    using cv [THEN clean_value_parts(1)] by (simp add: vals(1))
  have ne: "map ?mk ?kvs \<noteq> []"
    unfolding TQueryOptionsToMap_sorted by simp
  have sp: "boost_split (join (map ?mk ?kvs) '','') '','' = map ?mk ?kvs"
    by (rule boost_split_join [OF ne toks])
  have str: "ToString ?pc ?pl q = join (map ?mk ?kvs) '',''"
    by (simp add: ToString_def)
  have hdne: "hd (map ?mk ?kvs) \<noteq> []"
    unfolding TQueryOptionsToMap_sorted by simp
  have nonempty: "length (ToString ?pc ?pl q) \<noteq> 0"
    unfolding str using join_nonempty [OF ne hdne] by simp
  define pre where "pre = take 5 ?kvs"
  define post where "post = map ?mk (drop 6 ?kvs)"
  have parts: "map ?mk ?kvs = map ?mk pre @ ''DEBUG_ACTION=x=1'' # post"
    unfolding pre_def post_def TQueryOptionsToMap_sorted by (simp add: vals(1))
  have keys: "\<forall>e \<in> set pre. fst e \<noteq> [] \<and> \<not> isspace (hd (fst e)) \<and> CHR ''='' \<notin> set (fst e) \<and>
             clean_value (snd e)"
    unfolding pre_def TQueryOptionsToMap_sorted by (simp add: cv isspace_def)
  have bad: "fst (ParseQueryOptions_loop example_ParseMemSpec (''DEBUG_ACTION=x=1'' # post) q1)
               \<noteq> OK" for q1
    unfolding ParseQueryOptions_loop_three_pieces by (simp add: Status_msg_def)
  have eq: "ParseQueryOptions example_ParseMemSpec (ToString ?pc ?pl q) example_options
          = ParseQueryOptions_loop example_ParseMemSpec (map ?mk ?kvs) example_options"
    using nonempty unfolding ParseQueryOptions_def str sp by simp
  have "fst (ParseQueryOptions_loop example_ParseMemSpec (map ?mk ?kvs) example_options) \<noteq> OK"
    unfolding parts by (rule ParseQueryOptions_loop_bad [OF keys bad])
  then have "fst (ParseQueryOptions example_ParseMemSpec (ToString ?pc ?pl q) example_options)
               \<noteq> OK"
    unfolding eq .
  then show ?thesis unfolding q_def .
qed

end
